theory Spec2Isabelle
  imports Complex_Main "HOL-Library.Multiset"
begin

section \<open>Occupancy forecaster: the pipeline of PlugPredict.py and api.py\<close>

text \<open>
  The development embeds \<^verbatim>\<open>src/PlugPredict.py\<close> and the endpoint of
  \<^verbatim>\<open>src/api.py\<close>.  Python floats are read as real numbers, except where a
  statement is about rounding itself: there the binary64 operations are written out
  (\<open>fl64\<close>, \<open>sigmoid64\<close>, \<open>float64_of_int\<close>).  NumPy arrays are lists (a
  matrix is the list of its rows), and every exception the code can raise is a value of
  \<open>error\<close>.  The pandas calls (\<^verbatim>\<open>read_csv\<close>, \<^verbatim>\<open>to_datetime\<close>,
  \<^verbatim>\<open>astype\<close>, \<^verbatim>\<open>sort_values\<close>, \<^verbatim>\<open>asfreq\<close>,
  \<^verbatim>\<open>fillna\<close>, \<^verbatim>\<open>date_range\<close>) are modelled by what they do
  on the frames this code gives them.
\<close>

subsection \<open>Logistic regression\<close>

type_synonym vector = "real list"
type_synonym matrix = "real list list"

text \<open>\<^verbatim>\<open>np.clip(z, lo, hi)\<close> is \<^verbatim>\<open>minimum(maximum(z, lo), hi)\<close>.\<close>

definition clip :: "real \<Rightarrow> real \<Rightarrow> real \<Rightarrow> real" where
  "clip z lo hi = min (max z lo) hi"

definition sigmoid :: "real \<Rightarrow> real" where
  "sigmoid z = 1 / (1 + exp (- clip z (- 500) 500))"

definition add_bias :: "matrix \<Rightarrow> matrix" where
  "add_bias X = map (\<lambda>row. 1 # row) X"

definition dot :: "vector \<Rightarrow> vector \<Rightarrow> real" where
  "dot u v = sum_list (map2 (*) u v)"

text \<open>\<^verbatim>\<open>M @ v\<close> for a matrix and a vector: one inner product per row.\<close>

definition matvec :: "matrix \<Rightarrow> vector \<Rightarrow> vector" where
  "matvec M v = map (\<lambda>row. dot row v) M"

definition predict_logistic_regression :: "matrix \<Rightarrow> vector \<Rightarrow> vector" where
  "predict_logistic_regression X w = map sigmoid (matvec X w)"

text \<open>\<^verbatim>\<open>np.linalg.norm\<close> of a vector: the Euclidean norm.\<close>

definition linalg_norm :: "vector \<Rightarrow> real" where
  "linalg_norm g = sqrt (sum_list (map (\<lambda>x. x * x) g))"

text \<open>
  One pass of the loop body up to the update: \<^verbatim>\<open>y_pred\<close>, the gradient
  \<^verbatim>\<open>(Xb.T @ (y_pred - y)) / n\<close>, and the penalty
  \<^verbatim>\<open>l2 * np.r_[0.0, w[1:]]\<close> added when \<^verbatim>\<open>l2 > 0\<close>.
\<close>

definition gradient_of :: "matrix \<Rightarrow> int list \<Rightarrow> real \<Rightarrow> vector \<Rightarrow> vector" where
  "gradient_of Xb y l2 w =
     (let y_pred = map sigmoid (matvec Xb w);
          n = length y;
          gradient = map (\<lambda>s. s / real n)
                       (matvec (transpose Xb) (map2 (-) y_pred (map real_of_int y)))
      in if l2 > 0
         then map2 (+) gradient (map ((*) l2) (0 # drop 1 w))
         else gradient)"

text \<open>
  The loop \<^verbatim>\<open>for _ in range(iterations)\<close>, by recursion on the passes left:
  the weights are updated first, and the \<^verbatim>\<open>break\<close> is tested afterwards on
  the gradient of this pass.
\<close>

fun train_loop :: "nat \<Rightarrow> matrix \<Rightarrow> int list \<Rightarrow> real \<Rightarrow> real \<Rightarrow> vector \<Rightarrow> vector" where
  "train_loop 0 Xb y learning_rate l2 w = w"
| "train_loop (Suc k) Xb y learning_rate l2 w =
     (let gradient = gradient_of Xb y l2 w;
          w' = map2 (-) w (map ((*) learning_rate) gradient)
      in if linalg_norm gradient < 1 / 1000000 then w'
         else train_loop k Xb y learning_rate l2 w')"

text \<open>
  \<^verbatim>\<open>Xb.shape[1]\<close>, read off the first row; the trainer is only reached with at
  least one row.
\<close>

definition shape1 :: "matrix \<Rightarrow> nat" where
  "shape1 M = (case M of [] \<Rightarrow> 0 | row # _ \<Rightarrow> length row)"

definition logistic_regression_train ::
  "matrix \<Rightarrow> int list \<Rightarrow> real \<Rightarrow> int \<Rightarrow> real \<Rightarrow> vector" where
  "logistic_regression_train X y learning_rate iterations l2 =
     (let Xb = add_bias X;
          w = replicate (shape1 Xb) 0
      in train_loop (nat iterations) Xb y learning_rate l2 w)"

text \<open>The defaults of the signature, used for every keyword the caller leaves out.\<close>

definition default_learning_rate :: real where
  "default_learning_rate = 5 / 100"

definition default_iterations :: int where
  "default_iterations = 3000"

definition default_l2 :: real where
  "default_l2 = 0"

definition logistic_regression_train_kw ::
  "matrix \<Rightarrow> int list \<Rightarrow> real option \<Rightarrow> int option \<Rightarrow> real option \<Rightarrow> vector" where
  "logistic_regression_train_kw X y learning_rate iterations l2 =
     logistic_regression_train X y
       (case learning_rate of None \<Rightarrow> default_learning_rate | Some v \<Rightarrow> v)
       (case iterations of None \<Rightarrow> default_iterations | Some v \<Rightarrow> v)
       (case l2 of None \<Rightarrow> default_l2 | Some v \<Rightarrow> v)"

subsection \<open>The sigmoid in binary64\<close>

text \<open>
  Rounding to the nearest value of 53 significant bits, ties to even.  The exponent range
  of binary64 is not part of \<open>fl64\<close>; the values it is applied to below lie between
  \<open>2\<^sup>-\<^sup>1\<^sup>0\<^sup>2\<^sup>2\<close> and \<open>2\<^sup>1\<^sup>0\<^sup>2\<^sup>3\<close>, where binary64 is exactly this.
\<close>

definition round_half_even :: "real \<Rightarrow> int" where
  "round_half_even x =
     (let f = \<lfloor>x\<rfloor>; d = x - of_int f
      in if d < 1 / 2 then f else if 1 / 2 < d then f + 1 else if even f then f else f + 1)"

definition fl64 :: "real \<Rightarrow> real" where
  "fl64 x =
     (if x = 0 then 0
      else let e = \<lfloor>log 2 \<bar>x\<bar>\<rfloor>; ulp = 2 powr (of_int e - 52)
           in sgn x * (of_int (round_half_even (\<bar>x\<bar> / ulp)) * ulp))"

text \<open>
  \<^verbatim>\<open>sigmoid\<close> as NumPy runs it on a binary64 input: the clip and the negation
  are exact, and the exponential, the sum and the quotient are each rounded
  (\<^verbatim>\<open>np.exp\<close> is taken to return the nearest binary64).
\<close>

definition sigmoid64 :: "real \<Rightarrow> real" where
  "sigmoid64 z = fl64 (1 / fl64 (1 + fl64 (exp (- clip z (- 500) 500))))"

subsection \<open>Data loading\<close>

text \<open>
  A timestamp is a count of nanoseconds since 1970-01-01 00:00:00, as pandas stores it.
  A row of the file is a pair of cells: the rows modelled are those of one or two
  tab-separated fields, a missing second field being a blank label.  A timestamp cell is
  an instant that
  \<^verbatim>\<open>pd.to_datetime\<close> reads from it, or blank (read as \<^verbatim>\<open>NaT\<close> without an
  error), or text that \<^verbatim>\<open>pd.to_datetime\<close> rejects.  A label cell is the 64-bit
  integer that \<^verbatim>\<open>astype(int)\<close> makes of it, or a cell on which
  \<^verbatim>\<open>astype(int)\<close> raises (text that is no number, or a blank cell).
\<close>

type_synonym timestamp = int

datatype ts_cell = Ts timestamp | TsNaT | TsText
datatype label_cell = Lab int | LabBad

type_synonym raw_row = "ts_cell \<times> label_cell"

text \<open>A frame indexed by timestamp; \<open>None\<close> is \<^verbatim>\<open>NaT\<close>.\<close>

type_synonym indexed = "(timestamp option \<times> int) list"
type_synonym frame = "(timestamp \<times> int) list"

datatype error =
    EmptyDataError       \<comment> \<open>\<^verbatim>\<open>read_csv\<close> on a file with no rows\<close>
  | DateParseError       \<comment> \<open>\<^verbatim>\<open>to_datetime\<close> on text that is no date\<close>
  | LabelValueError      \<comment> \<open>\<^verbatim>\<open>astype(int)\<close> on a cell that is no integer\<close>
  | NaTRangeError        \<comment> \<open>\<^verbatim>\<open>date_range\<close> from \<^verbatim>\<open>NaT\<close> to \<^verbatim>\<open>NaT\<close>\<close>
  | DuplicateLabelsError \<comment> \<open>\<^verbatim>\<open>reindex\<close> on an index with duplicate labels\<close>

definition five_min :: int where
  "five_min = 300000000000"

fun to_datetime :: "ts_cell list \<Rightarrow> error + timestamp option list" where
  "to_datetime [] = Inr []"
| "to_datetime (TsText # cs) = Inl DateParseError"
| "to_datetime (Ts t # cs) =
     (case to_datetime cs of Inl e \<Rightarrow> Inl e | Inr ts \<Rightarrow> Inr (Some t # ts))"
| "to_datetime (TsNaT # cs) =
     (case to_datetime cs of Inl e \<Rightarrow> Inl e | Inr ts \<Rightarrow> Inr (None # ts))"

fun astype_int :: "label_cell list \<Rightarrow> error + int list" where
  "astype_int [] = Inr []"
| "astype_int (LabBad # cs) = Inl LabelValueError"
| "astype_int (Lab v # cs) =
     (case astype_int cs of Inl e \<Rightarrow> Inl e | Inr vs \<Rightarrow> Inr (v # vs))"

text \<open>\<^verbatim>\<open>sort_values('timestamp')\<close>: ascending, \<^verbatim>\<open>NaT\<close> last.\<close>

definition sort_values :: "indexed \<Rightarrow> indexed" where
  "sort_values df =
     sort_key (\<lambda>r. the (fst r)) (filter (\<lambda>r. fst r \<noteq> None) df)
       @ filter (\<lambda>r. fst r = None) df"

text \<open>
  \<^verbatim>\<open>pd.date_range(start, end, freq='5min')\<close>: the instants
  \<open>start + k * 5min\<close> that are at most \<open>end\<close>.
\<close>

definition date_range :: "timestamp \<Rightarrow> timestamp \<Rightarrow> timestamp list" where
  "date_range start end =
     map (\<lambda>k. start + int k * five_min) [0..<nat ((end - start) div five_min + 1)]"

text \<open>\<^verbatim>\<open>pd.date_range(start, periods=n, freq='5min')\<close>.\<close>

definition date_range_periods :: "timestamp \<Rightarrow> nat \<Rightarrow> timestamp list" where
  "date_range_periods start periods = map (\<lambda>k. start + int k * five_min) [0..<periods]"

text \<open>
  The number of binary digits of a natural number, and the conversion of a 64-bit
  integer to binary64 and back: exact up to \<open>2\<^sup>5\<^sup>3\<close> in magnitude, and beyond
  that the nearest integer of 53 significant bits, ties to even.  (For the few hundred
  integers next to \<open>\<plusminus>2\<^sup>6\<^sup>3\<close> the nearest binary64 does not fit 64 bits, and
  what the cast back gives is left to the platform; the value here is the binary64.)
\<close>

fun bit_length :: "nat \<Rightarrow> nat" where
  "bit_length n = (if n = 0 then 0 else Suc (bit_length (n div 2)))"

declare bit_length.simps [simp del]

definition float64_of_int :: "int \<Rightarrow> int" where
  "float64_of_int v =
     (if \<bar>v\<bar> \<le> 2 ^ 53 then v
      else let s = bit_length (nat \<bar>v\<bar>) - 53;
               q = \<bar>v\<bar> div 2 ^ s;
               r = \<bar>v\<bar> mod 2 ^ s;
               q' = (if 2 ^ (s - 1) < r \<or> (r = 2 ^ (s - 1) \<and> odd q) then q + 1 else q)
           in sgn v * (q' * 2 ^ s))"

text \<open>
  \<^verbatim>\<open>df.asfreq('5min')\<close> on a frame indexed by timestamp: an empty frame is
  returned as it is; otherwise the frame is reindexed onto
  \<^verbatim>\<open>date_range(index.min(), index.max(), freq)\<close>, where the minimum and the
  maximum skip \<^verbatim>\<open>NaT\<close> and \<^verbatim>\<open>date_range\<close> raises when no instant is
  left.  Reindexing raises on an index with duplicate labels (two \<^verbatim>\<open>NaT\<close> are
  duplicates); on a unique index a grid instant takes the row stored under exactly that
  instant, and is missing (\<open>None\<close>, pandas' NaN) when there is none.  When some slot
  is missing the column is promoted from int64 to float64, so every label is converted;
  otherwise the labels stay the integers they were.
\<close>

definition asfreq :: "indexed \<Rightarrow> error + (timestamp \<times> int option) list" where
  "asfreq df =
     (if df = [] then Inr []
      else let index = map fst df;
               instants = map the (filter (\<lambda>i. i \<noteq> None) index)
           in if instants = [] then Inl NaTRangeError
              else let dti = date_range (Min (set instants)) (Max (set instants))
                   in if \<not> distinct index then Inl DuplicateLabelsError
                      else let cells = map (\<lambda>t. (t, map_of df (Some t))) dti
                           in Inr (if None \<in> set (map snd cells)
                                   then map (\<lambda>(t, x). (t, map_option float64_of_int x)) cells
                                   else cells))"

text \<open>
  \<^verbatim>\<open>fillna(0).astype(int)\<close>: a missing label becomes 0; the cast back to
  integers changes no value, since every label left is a whole number.
\<close>

definition fillna :: "int \<Rightarrow> (timestamp \<times> int option) list \<Rightarrow> frame" where
  "fillna v df = map (\<lambda>(t, x). (t, case x of None \<Rightarrow> v | Some l \<Rightarrow> l)) df"

definition load_txt_to_dataframe :: "raw_row list \<Rightarrow> error + frame" where
  "load_txt_to_dataframe rows =
     (if rows = [] then Inl EmptyDataError
      else case to_datetime (map fst rows) of
        Inl e \<Rightarrow> Inl e
      | Inr ts \<Rightarrow>
          (case astype_int (map snd rows) of
             Inl e \<Rightarrow> Inl e
           | Inr ls \<Rightarrow>
               (case asfreq (sort_values (zip ts ls)) of
                  Inl e \<Rightarrow> Inl e
                | Inr g \<Rightarrow> Inr (fillna 0 g))))"

subsection \<open>Time features\<close>

definition hour :: "timestamp \<Rightarrow> int" where
  "hour t = (t div 3600000000000) mod 24"

definition minute :: "timestamp \<Rightarrow> int" where
  "minute t = (t div 60000000000) mod 60"

text \<open>Monday is 0; 1970-01-01 was a Thursday.\<close>

definition dayofweek :: "timestamp \<Rightarrow> int" where
  "dayofweek t = (t div 86400000000000 + 3) mod 7"

definition is_weekend :: "timestamp \<Rightarrow> int" where
  "is_weekend t = (if dayofweek t \<ge> 5 then 1 else 0)"

definition features :: "timestamp \<Rightarrow> vector" where
  "features t =
     [sin (2 * pi * real_of_int (hour t) / 24), cos (2 * pi * real_of_int (hour t) / 24),
      sin (2 * pi * real_of_int (minute t) / 60), cos (2 * pi * real_of_int (minute t) / 60),
      sin (2 * pi * real_of_int (dayofweek t) / 7), cos (2 * pi * real_of_int (dayofweek t) / 7),
      real_of_int (is_weekend t)]"

subsection \<open>Forecasting\<close>

text \<open>
  \<^verbatim>\<open>forecast_12h_from_txt\<close>, from the rows of the file to the list that is
  written as JSON (each timestamp is kept as an instant; the code prints it with
  \<^verbatim>\<open>strftime\<close>).  The first half computes the future timestamps and
  \<^verbatim>\<open>y_prob\<close>; the second compares \<^verbatim>\<open>y_prob\<close> with the literal 0.6.
\<close>

definition forecast_probabilities :: "raw_row list \<Rightarrow> error + (timestamp list \<times> vector)" where
  "forecast_probabilities rows =
     (case load_txt_to_dataframe rows of
        Inl e \<Rightarrow> Inl e
      | Inr df \<Rightarrow>
          (let X_train = map (\<lambda>r. features (fst r)) df;
               y_train = map snd df;
               last_timestamp = Max (set (map fst df));
               future_timestamps = date_range_periods (last_timestamp + five_min) 144;
               X_future = map features future_timestamps;
               model = logistic_regression_train X_train y_train (5 / 100) 3000 (1 / 100);
               y_prob = predict_logistic_regression (add_bias X_future) model
           in Inr (future_timestamps, y_prob)))"

definition forecast_12h_from_txt :: "raw_row list \<Rightarrow> error + (timestamp \<times> int) list" where
  "forecast_12h_from_txt rows =
     (case forecast_probabilities rows of
        Inl e \<Rightarrow> Inl e
      | Inr (future_timestamps, y_prob) \<Rightarrow>
          (let y_pred = map (\<lambda>p. if p \<ge> 6 / 10 then 1 else 0) y_prob
           in Inr (zip future_timestamps y_pred)))"

text \<open>
  The endpoint \<^verbatim>\<open>compute_forecast(file, threshold)\<close> of api.py: it runs the
  pipeline on the uploaded rows and returns what the pipeline wrote.
\<close>

definition compute_forecast :: "raw_row list \<Rightarrow> real \<Rightarrow> error + (timestamp \<times> int) list" where
  "compute_forecast file threshold = forecast_12h_from_txt file"


subsection \<open>Vocabulary for the statements about loading\<close>

text \<open>The instants of the rows whose timestamp cell is an instant, in file order.\<close>

fun timestamps_of :: "raw_row list \<Rightarrow> timestamp list" where
  "timestamps_of [] = []"
| "timestamps_of ((Ts t, c) # rows) = t # timestamps_of rows"
| "timestamps_of (r # rows) = timestamps_of rows"

text \<open>The rows with an instant and an integer label, as (instant, label) pairs.\<close>

fun observations :: "raw_row list \<Rightarrow> frame" where
  "observations [] = []"
| "observations ((Ts t, Lab v) # rows) = (t, v) # observations rows"
| "observations (r # rows) = observations rows"

text \<open>Every timestamp cell is an instant and every label cell an integer.\<close>

definition parseable :: "raw_row list \<Rightarrow> bool" where
  "parseable rows =
     (TsText \<notin> fst ` set rows \<and> TsNaT \<notin> fst ` set rows \<and> LabBad \<notin> snd ` set rows)"

text \<open>The five-minute grid from the earliest instant of the input up to the latest.\<close>

definition regular_grid :: "raw_row list \<Rightarrow> timestamp list" where
  "regular_grid rows =
     date_range (Min (set (timestamps_of rows))) (Max (set (timestamps_of rows)))"

text \<open>Some slot of the grid has no observation at exactly its instant.\<close>

definition has_gap :: "raw_row list \<Rightarrow> bool" where
  "has_gap rows = list_ex (\<lambda>t. t \<notin> set (timestamps_of rows)) (regular_grid rows)"

text \<open>
  The label of the observation stored under exactly the instant \<open>t\<close> (converted to
  binary64 and back when the grid has a gap), or 0 when there is none.
\<close>

definition slot_label :: "raw_row list \<Rightarrow> timestamp \<Rightarrow> int" where
  "slot_label rows t =
     (case map_of (observations rows) t of
        None \<Rightarrow> 0
      | Some l \<Rightarrow> if has_gap rows then float64_of_int l else l)"

subsection \<open>The trainer as the specification words it\<close>

text \<open>
  The second description of training, written from the specification and compared with
  \<open>logistic_regression_train\<close> below.  For row \<open>i\<close> of the features prefixed
  with the bias 1.0, the probability is the sigmoid of its inner product with the eight
  weights, clamped to \<open>[-500, 500]\<close>; component \<open>j\<close> of the gradient is the
  mean over the rows of feature \<open>j\<close> times (probability minus label), plus
  \<open>l2 * w\<^sub>j\<close> when \<open>l2 > 0\<close> and \<open>j\<close> is not the bias index 0; a step
  subtracts the learning rate times the gradient; the stopping test is that the Euclidean
  norm of the gradient is below \<open>10\<^sup>-\<^sup>6\<close>.
\<close>

definition spec_probability :: "matrix \<Rightarrow> vector \<Rightarrow> nat \<Rightarrow> real" where
  "spec_probability X w i =
     1 / (1 + exp (- max (- 500) (min 500 (\<Sum>k<8. (1 # X ! i) ! k * w ! k))))"

definition spec_gradient :: "matrix \<Rightarrow> int list \<Rightarrow> real \<Rightarrow> vector \<Rightarrow> nat \<Rightarrow> real" where
  "spec_gradient X y l2 w j =
     (\<Sum>i<length X. (1 # X ! i) ! j * (spec_probability X w i - real_of_int (y ! i)))
       / real (length X)
     + (if l2 > 0 \<and> j \<noteq> 0 then l2 * w ! j else 0)"

definition spec_update :: "real \<Rightarrow> matrix \<Rightarrow> int list \<Rightarrow> real \<Rightarrow> vector \<Rightarrow> vector" where
  "spec_update learning_rate X y l2 w =
     map (\<lambda>j. w ! j - learning_rate * spec_gradient X y l2 w j) [0..<8]"

definition spec_converged :: "matrix \<Rightarrow> int list \<Rightarrow> real \<Rightarrow> vector \<Rightarrow> bool" where
  "spec_converged X y l2 w = (sqrt (\<Sum>j<8. (spec_gradient X y l2 w j)\<^sup>2) < 1 / 1000000)"

subsection \<open>Vocabulary for training on one unoccupied observation\<close>

text \<open>
  Weights that training on the single feature row \<open>x\<close> with label 0 can reach: a
  bias that is not positive, and the other weights a non-positive multiple of \<open>x\<close>.
\<close>

definition pulled_down :: "vector \<Rightarrow> vector \<Rightarrow> bool" where
  "pulled_down x w = (\<exists>a b. 0 \<le> a \<and> 0 \<le> b \<and> w = (- a) # map (\<lambda>v. - (b * v)) x)"

section \<open>Properties\<close>

subsection \<open>Parsing and the five-minute grid\<close>

lemma to_datetime_Inl: "to_datetime cs = Inl e \<longleftrightarrow> e = DateParseError \<and> TsText \<in> set cs"
  by (induction cs rule: to_datetime.induct) (auto split: sum.splits)

lemma astype_int_Inl: "astype_int cs = Inl e \<longleftrightarrow> e = LabelValueError \<and> LabBad \<in> set cs"
  by (induction cs rule: astype_int.induct) (auto split: sum.splits)

lemma to_datetime_Inr_length: "to_datetime cs = Inr ts \<Longrightarrow> length ts = length cs"
  by (induction cs arbitrary: ts rule: to_datetime.induct) (auto split: sum.splits)

lemma astype_int_Inr_length: "astype_int cs = Inr ts \<Longrightarrow> length ts = length cs"
  by (induction cs arbitrary: ts rule: astype_int.induct) (auto split: sum.splits)

lemma timestamps_of_set: "t \<in> set (timestamps_of rows) \<longleftrightarrow> Ts t \<in> fst ` set rows"
  by (induction rows rule: timestamps_of.induct) auto

lemma observations_set: "(t, l) \<in> set (observations rows) \<longleftrightarrow> (Ts t, Lab l) \<in> set rows"
  by (induction rows rule: observations.induct) auto

lemma observations_index:
  "LabBad \<notin> snd ` set rows \<Longrightarrow> map fst (observations rows) = timestamps_of rows"
proof (induction rows)
  case Nil
  then show ?case by simp
next
  case (Cons r rows)
  obtain c l where r: "r = (c, l)" by (cases r)
  show ?case using Cons r by (cases c; cases l) auto
qed

lemma parse_frame:
  "to_datetime (map fst rows) = Inr ts \<Longrightarrow> astype_int (map snd rows) = Inr ls \<Longrightarrow>
   map the (filter (\<lambda>i. i \<noteq> None) ts) = timestamps_of rows
   \<and> (\<forall>t. Some t \<in> set ts \<longleftrightarrow> Ts t \<in> fst ` set rows)
   \<and> (None \<in> set ts \<longleftrightarrow> TsNaT \<in> fst ` set rows)
   \<and> (distinct ts \<longleftrightarrow> distinct (map fst rows))
   \<and> (\<forall>t. map_of (zip ts ls) (Some t) = map_of (observations rows) t)"
proof (induction rows arbitrary: ts ls)
  case Nil
  then show ?case by simp
next
  case (Cons r rows)
  obtain c l where r: "r = (c, l)" by (cases r)
  show ?case
  proof (cases c)
    case (Ts t)
    then obtain ts' ls' v where p: "to_datetime (map fst rows) = Inr ts'"
      "astype_int (map snd rows) = Inr ls'" "ts = Some t # ts'" "ls = v # ls'" "l = Lab v"
      using Cons.prems r by (cases l) (auto split: sum.splits)
    note ih = Cons.IH[OF p(1) p(2)]
    show ?thesis using ih p(3-5) r Ts by (auto simp: image_iff)
  next
    case TsNaT
    then obtain ts' ls' v where p: "to_datetime (map fst rows) = Inr ts'"
      "astype_int (map snd rows) = Inr ls'" "ts = None # ts'" "ls = v # ls'" "l = Lab v"
      using Cons.prems r by (cases l) (auto split: sum.splits)
    note ih = Cons.IH[OF p(1) p(2)]
    show ?thesis using ih p(3-5) r TsNaT by (auto simp: image_iff)
  next
    case TsText
    then show ?thesis using Cons.prems r by simp
  qed
qed

lemma mset_sort_values: "mset (sort_values df) = mset df"
  by (simp add: sort_values_def)

lemma set_sort_values: "set (sort_values df) = set df"
  using mset_sort_values[of df] by (metis set_mset_mset)

lemma distinct_sort_values:
  "distinct (map fst (sort_values df)) \<longleftrightarrow> distinct (map fst df)"
proof -
  have "mset (map fst (sort_values df)) = mset (map fst df)"
    using mset_sort_values[of df] by (metis mset_map)
  then show ?thesis by (rule mset_eq_imp_distinct_iff)
qed

lemma map_of_sort_values:
  "distinct (map fst df) \<Longrightarrow> map_of (sort_values df) = map_of df"
  using map_of_inject_set[of "sort_values df" df] distinct_sort_values[of df]
  by (simp add: set_sort_values)

lemma date_range_nth:
  "i < length (date_range s e) \<Longrightarrow> date_range s e ! i = s + int i * five_min"
  by (simp add: date_range_def)

lemma date_range_length: "length (date_range s e) = nat ((e - s) div five_min + 1)"
  by (simp add: date_range_def)

lemma five_min_pos: "0 < five_min" by (simp add: five_min_def)

lemma date_range_nonempty: "s \<le> e \<Longrightarrow> date_range s e \<noteq> []"
proof -
  assume "s \<le> e"
  then have "0 \<le> (e - s) div five_min" using five_min_pos by (simp add: pos_imp_zdiv_nonneg_iff)
  then have "0 < length (date_range s e)" by (simp add: date_range_length)
  then show ?thesis by auto
qed

lemma date_range_hd: "s \<le> e \<Longrightarrow> hd (date_range s e) = s"
  using date_range_nonempty[of s e] date_range_nth[of 0 s e]
  by (simp add: hd_conv_nth)

lemma date_range_last:
  "s \<le> e \<Longrightarrow> last (date_range s e) = s + five_min * ((e - s) div five_min)"
proof -
  assume se: "s \<le> e"
  then have nn: "0 \<le> (e - s) div five_min" using five_min_pos by (simp add: pos_imp_zdiv_nonneg_iff)
  have ne: "date_range s e \<noteq> []" using se by (rule date_range_nonempty)
  have "last (date_range s e) = date_range s e ! (length (date_range s e) - 1)"
    using ne by (simp add: last_conv_nth)
  also have "\<dots> = s + int (length (date_range s e) - 1) * five_min"
    using ne by (intro date_range_nth) simp
  also have "int (length (date_range s e) - 1) = (e - s) div five_min"
    using nn by (simp add: date_range_length)
  finally show ?thesis by (simp add: mult.commute)
qed



lemma date_range_sorted: "sorted_wrt (<) (date_range s e)"
  unfolding date_range_def sorted_wrt_map
  by (rule sorted_wrt_mono_rel[OF _ sorted_wrt_upt]) (simp add: five_min_pos)

lemma min_le_max_timestamps:
  "xs \<noteq> [] \<Longrightarrow> Min (set xs) \<le> Max (set (xs :: int list))"
proof -
  assume "xs \<noteq> []"
  then have "Min (set xs) \<in> set xs" by (intro Min_in) simp_all
  then show ?thesis by (intro Max_ge) simp_all
qed

lemma grid_props:
  assumes "timestamps_of rows \<noteq> []"
  shows "regular_grid rows \<noteq> []"
    "hd (regular_grid rows) = Min (set (timestamps_of rows))"
    "last (regular_grid rows) = Min (set (timestamps_of rows)) +
       five_min * ((Max (set (timestamps_of rows)) - Min (set (timestamps_of rows))) div five_min)"
  using min_le_max_timestamps[OF assms]
  by (simp_all add: regular_grid_def date_range_nonempty date_range_hd date_range_last)

lemma grid_last_bounds:
  assumes "timestamps_of rows \<noteq> []"
  shows "last (regular_grid rows) \<le> Max (set (timestamps_of rows))"
    and "Max (set (timestamps_of rows)) < last (regular_grid rows) + five_min"
proof -
  let ?a = "Min (set (timestamps_of rows))" and ?b = "Max (set (timestamps_of rows))"
  have l: "last (regular_grid rows) = ?a + five_min * ((?b - ?a) div five_min)"
    using grid_props(3)[OF assms] .
  have d: "five_min * ((?b - ?a) div five_min) + (?b - ?a) mod five_min = ?b - ?a"
    by (rule mult_div_mod_eq)
  have "0 \<le> (?b - ?a) mod five_min" using five_min_pos by (rule pos_mod_sign)
  then show "last (regular_grid rows) \<le> ?b" using l d by linarith
  have "(?b - ?a) mod five_min < five_min" using five_min_pos by (rule pos_mod_bound)
  then show "?b < last (regular_grid rows) + five_min" using l d by linarith
qed

lemma grid_step:
  "Suc i < length (regular_grid rows) \<Longrightarrow>
   regular_grid rows ! Suc i - regular_grid rows ! i = five_min"
  unfolding regular_grid_def by (simp add: date_range_nth algebra_simps)

lemma map_fst_slots: "map fst (map (\<lambda>t. (t, f t)) g) = g"
  by (simp add: comp_def)


lemma parseable_nonempty:
  "rows \<noteq> [] \<Longrightarrow> TsText \<notin> fst ` set rows \<Longrightarrow> TsNaT \<notin> fst ` set rows \<Longrightarrow>
   timestamps_of rows \<noteq> []"
proof (induction rows)
  case Nil
  then show ?case by simp
next
  case (Cons r rows)
  obtain c l where r: "r = (c, l)" by (cases r)
  show ?case using Cons.prems r by (cases c) auto
qed

lemma has_gap_iff:
  "has_gap rows \<longleftrightarrow> (\<exists>t \<in> set (regular_grid rows). Ts t \<notin> fst ` set rows)"
  by (simp add: has_gap_def list_ex_iff timestamps_of_set)

lemma load_parsed:
  assumes ne: "rows \<noteq> []"
    and ts: "to_datetime (map fst rows) = Inr ts"
    and ls: "astype_int (map snd rows) = Inr ls"
  shows "load_txt_to_dataframe rows =
     (if timestamps_of rows = [] then Inl NaTRangeError
      else if \<not> distinct (map fst rows) then Inl DuplicateLabelsError
      else Inr (map (\<lambda>t. (t, slot_label rows t)) (regular_grid rows)))"
proof -
  let ?df = "sort_values (zip ts ls)"
  note pf = parse_frame[OF ts ls]
  have lts: "length ts = length rows" using to_datetime_Inr_length[OF ts] by simp
  have lls: "length ls = length rows" using astype_int_Inr_length[OF ls] by simp
  have nl: "LabBad \<notin> snd ` set rows" using astype_int_Inl[of "map snd rows"] ls by auto
  have idx0: "map fst (zip ts ls) = ts" using lts lls by simp
  have dne: "?df \<noteq> []"
    using ne lts lls set_sort_values[of "zip ts ls"] by (cases ts; cases ls) auto
  have sidx: "set (map fst ?df) = set ts"
    using set_sort_values[of "zip ts ls"] idx0 by (metis set_map)
  have pf1: "map the (filter (\<lambda>i. i \<noteq> None) ts) = timestamps_of rows"
    using pf by blast
  have inst: "set (map the (filter (\<lambda>i. i \<noteq> None) (map fst ?df))) = set (timestamps_of rows)"
  proof -
    have "set (map the (filter (\<lambda>i. i \<noteq> None) xs)) = the ` {i \<in> set xs. i \<noteq> None}"
      for xs :: "timestamp option list" by auto
    then have "set (map the (filter (\<lambda>i. i \<noteq> None) (map fst ?df)))
        = set (map the (filter (\<lambda>i. i \<noteq> None) ts))"
      using sidx by metis
    then show ?thesis by (simp only: pf1)
  qed
  have empty: "map the (filter (\<lambda>i. i \<noteq> None) (map fst ?df)) = [] \<longleftrightarrow> timestamps_of rows = []"
    using inst by (metis set_empty)
  have dist: "distinct (map fst ?df) \<longleftrightarrow> distinct (map fst rows)"
    using distinct_sort_values[of "zip ts ls"] idx0 pf by simp
  have asf: "asfreq ?df =
      (if timestamps_of rows = [] then Inl NaTRangeError
       else if \<not> distinct (map fst rows) then Inl DuplicateLabelsError
       else let cells = map (\<lambda>t. (t, map_of ?df (Some t))) (regular_grid rows)
            in Inr (if None \<in> set (map snd cells)
                    then map (\<lambda>(t, x). (t, map_option float64_of_int x)) cells
                    else cells))"
    unfolding asfreq_def Let_def empty dist inst regular_grid_def using dne by simp
  show ?thesis
  proof (cases "timestamps_of rows \<noteq> [] \<and> distinct (map fst rows)")
    case False
    then show ?thesis using ne ts ls asf by (auto simp: load_txt_to_dataframe_def)
  next
    case True
    then have d0: "distinct (map fst (zip ts ls))" using idx0 pf by simp
    have look: "map_of ?df (Some t) = map_of (observations rows) t" for t
      using map_of_sort_values[OF d0] pf by simp
    have none: "map_of (observations rows) t = None \<longleftrightarrow> Ts t \<notin> fst ` set rows" for t
      using observations_index[OF nl] timestamps_of_set[of t rows]
      by (metis map_of_eq_None_iff set_map)
    let ?cells = "map (\<lambda>t. (t, map_of (observations rows) t)) (regular_grid rows)"
    have gap: "None \<in> set (map snd ?cells) \<longleftrightarrow> has_gap rows"
    proof -
      have "None \<in> set (map snd ?cells)
          \<longleftrightarrow> (\<exists>t \<in> set (regular_grid rows). map_of (observations rows) t = None)"
        by (force simp: image_iff)
      then show ?thesis unfolding has_gap_iff none .
    qed
    have asf': "asfreq ?df =
        Inr (if has_gap rows
             then map (\<lambda>(t, x). (t, map_option float64_of_int x)) ?cells else ?cells)"
      unfolding asf Let_def look gap using True by simp
    have "fillna 0 (if has_gap rows
             then map (\<lambda>(t, x). (t, map_option float64_of_int x)) ?cells else ?cells)
        = map (\<lambda>t. (t, slot_label rows t)) (regular_grid rows)"
      by (auto simp: fillna_def slot_label_def split: option.splits)
    then show ?thesis using ne ts ls asf' True by (simp add: load_txt_to_dataframe_def)
  qed
qed

lemma load_cases:
  "load_txt_to_dataframe rows =
     (if rows = [] then Inl EmptyDataError
      else if TsText \<in> fst ` set rows then Inl DateParseError
      else if LabBad \<in> snd ` set rows then Inl LabelValueError
      else if timestamps_of rows = [] then Inl NaTRangeError
      else if \<not> distinct (map fst rows) then Inl DuplicateLabelsError
      else Inr (map (\<lambda>t. (t, slot_label rows t)) (regular_grid rows)))"
proof (cases "rows = []")
  case True
  then show ?thesis by (simp add: load_txt_to_dataframe_def)
next
  case ne: False
  show ?thesis
  proof (cases "to_datetime (map fst rows)")
    case (Inl e)
    then show ?thesis using ne to_datetime_Inl[of "map fst rows" e]
      by (simp add: load_txt_to_dataframe_def)
  next
    case ts: (Inr ts)
    then have nt: "TsText \<notin> fst ` set rows"
      using to_datetime_Inl[of "map fst rows" DateParseError] by auto
    show ?thesis
    proof (cases "astype_int (map snd rows)")
      case (Inl e)
      then show ?thesis using ne ts nt astype_int_Inl[of "map snd rows" e]
        by (simp add: load_txt_to_dataframe_def)
    next
      case ls: (Inr ls)
      then have nl: "LabBad \<notin> snd ` set rows"
        using astype_int_Inl[of "map snd rows" LabelValueError] by auto
      show ?thesis using load_parsed[OF ne ts ls] ne nt nl by simp
    qed
  qed
qed

lemma float64_of_int_small: "\<bar>v\<bar> \<le> 2 ^ 53 \<Longrightarrow> float64_of_int v = v"
  by (simp add: float64_of_int_def)


lemma distinct_instants_cells:
  "TsText \<notin> fst ` set rows \<Longrightarrow> TsNaT \<notin> fst ` set rows \<Longrightarrow>
   distinct (timestamps_of rows) \<Longrightarrow> distinct (map fst rows)"
proof (induction rows)
  case Nil
  then show ?case by simp
next
  case (Cons r rows)
  obtain c l where r: "r = (c, l)" by (cases r)
  show ?case using Cons r by (cases c) (auto simp: timestamps_of_set)
qed

lemma duplicate_rows_not_distinct:
  "i < j \<Longrightarrow> j < length rows \<Longrightarrow> fst (rows ! i) = c \<Longrightarrow> fst (rows ! j) = c \<Longrightarrow>
   \<not> distinct (map fst rows)"
proof -
  assume i: "i < j" and j: "j < length rows"
    and c: "fst (rows ! i) = c" "fst (rows ! j) = c"
  show "\<not> distinct (map fst rows)"
  proof
    assume d: "distinct (map fst rows)"
    have e: "map fst rows ! i = map fst rows ! j" using i j c by simp
    have "i < length (map fst rows)" and "j < length (map fst rows)" using i j by simp_all
    then have "i = j" using nth_eq_iff_index_eq[OF d] e by blast
    then show False using i by simp
  qed
qed

lemma load_Inr_form:
  assumes "load_txt_to_dataframe rows = Inr out"
  shows "rows \<noteq> []" "TsText \<notin> fst ` set rows" "LabBad \<notin> snd ` set rows"
    "timestamps_of rows \<noteq> []" "distinct (map fst rows)"
    "out = map (\<lambda>t. (t, slot_label rows t)) (regular_grid rows)"
  using assms unfolding load_cases[of rows] by (simp_all split: if_splits)

lemma slot_label_cases:
  assumes "distinct (timestamps_of rows)" "LabBad \<notin> snd ` set rows"
  shows "(Ts t, Lab l) \<in> set rows \<Longrightarrow>
           slot_label rows t = (if has_gap rows then float64_of_int l else l)"
    and "Ts t \<notin> fst ` set rows \<Longrightarrow> slot_label rows t = 0"
proof -
  have d: "distinct (map fst (observations rows))"
    using assms observations_index by simp
  show "(Ts t, Lab l) \<in> set rows \<Longrightarrow>
      slot_label rows t = (if has_gap rows then float64_of_int l else l)"
    using d by (simp add: slot_label_def observations_set[symmetric])
  show "Ts t \<notin> fst ` set rows \<Longrightarrow> slot_label rows t = 0"
  proof -
    assume "Ts t \<notin> fst ` set rows"
    then have "t \<notin> set (map fst (observations rows))"
      using observations_index[OF assms(2)] timestamps_of_set[of t rows] by simp
    then have "map_of (observations rows) t = None" by (simp add: map_of_eq_None_iff)
    then show ?thesis by (simp add: slot_label_def)
  qed
qed

lemma slot_label_small:
  assumes "distinct (timestamps_of rows)" "LabBad \<notin> snd ` set rows"
    and "(Ts t, Lab l) \<in> set rows" and "\<bar>l\<bar> \<le> 2 ^ 53"
  shows "slot_label rows t = l"
  using slot_label_cases(1)[OF assms(1,2,3)] float64_of_int_small[OF assms(4)] by simp

text \<open>
  Claim C5, as the code has it.  For every non-empty input whose cells are all read and
  whose timestamps are pairwise distinct, loading succeeds; the timestamps of the series
  increase strictly and consecutive ones differ by exactly five minutes; the series
  starts at the earliest input timestamp and ends at the last grid instant at or before
  the latest one (less than five minutes before it); a slot with no input observation at
  exactly its instant has label 0, and a slot with one carries that observation's label
  (as it is for every label up to \<open>2\<^sup>5\<^sup>3\<close> in magnitude, so for 0 and 1; a larger
  one is rounded to binary64 when some slot of the grid had to be filled).
\<close>

theorem regular_series_grid:
  assumes "rows \<noteq> []" and "parseable rows" and "distinct (timestamps_of rows)"
  shows "\<exists>out. load_txt_to_dataframe rows = Inr out
    \<and> out \<noteq> []
    \<and> sorted_wrt (<) (map fst out)
    \<and> (\<forall>i. Suc i < length out \<longrightarrow> fst (out ! Suc i) - fst (out ! i) = five_min)
    \<and> fst (hd out) = Min (set (timestamps_of rows))
    \<and> fst (last out) \<le> Max (set (timestamps_of rows))
    \<and> Max (set (timestamps_of rows)) < fst (last out) + five_min
    \<and> (\<forall>p \<in> set out. Ts (fst p) \<notin> fst ` set rows \<longrightarrow> snd p = 0)
    \<and> (\<forall>p \<in> set out. \<forall>l. (Ts (fst p), Lab l) \<in> set rows \<longrightarrow>
          snd p = (if has_gap rows then float64_of_int l else l)
          \<and> (\<bar>l\<bar> \<le> 2 ^ 53 \<longrightarrow> snd p = l))"
proof -
  define out where "out = map (\<lambda>t. (t, slot_label rows t)) (regular_grid rows)"
  have nt: "TsText \<notin> fst ` set rows" and nn: "TsNaT \<notin> fst ` set rows"
    and nl: "LabBad \<notin> snd ` set rows"
    using assms(2) by (simp_all add: parseable_def)
  have tne: "timestamps_of rows \<noteq> []" using assms(1) nt nn by (rule parseable_nonempty)
  have dc: "distinct (map fst rows)" using nt nn assms(3) by (rule distinct_instants_cells)
  have load: "load_txt_to_dataframe rows = Inr out"
    unfolding load_cases[of rows] out_def using assms(1) nt nl tne dc by simp
  have idx: "map fst out = regular_grid rows" unfolding out_def by (rule map_fst_slots)
  have len: "length out = length (regular_grid rows)" unfolding out_def by simp
  have ne: "out \<noteq> []" using grid_props(1)[OF tne] len by auto
  have srt: "sorted_wrt (<) (map fst out)"
    unfolding idx regular_grid_def by (rule date_range_sorted)
  have nth: "fst (out ! i) = regular_grid rows ! i" if "i < length out" for i
    using that idx by (metis length_map nth_map)
  have step: "\<forall>i. Suc i < length out \<longrightarrow> fst (out ! Suc i) - fst (out ! i) = five_min"
    using nth grid_step[of _ rows] len by simp
  have hd: "fst (hd out) = Min (set (timestamps_of rows))"
    using grid_props(2)[OF tne] ne idx by (metis hd_map)
  have lst: "fst (last out) = last (regular_grid rows)"
    using ne idx by (metis last_map)
  have zero: "\<forall>p \<in> set out. Ts (fst p) \<notin> fst ` set rows \<longrightarrow> snd p = 0"
    unfolding out_def using slot_label_cases(2)[OF assms(3) nl] by auto
  have keep: "\<forall>p \<in> set out. \<forall>l. (Ts (fst p), Lab l) \<in> set rows \<longrightarrow>
          snd p = (if has_gap rows then float64_of_int l else l)
          \<and> (\<bar>l\<bar> \<le> 2 ^ 53 \<longrightarrow> snd p = l)"
    unfolding out_def
    using slot_label_cases(1)[OF assms(3) nl] slot_label_small[OF assms(3) nl] by auto
  show ?thesis
    using load ne srt step hd grid_last_bounds[OF tne] zero keep unfolding lst[symmetric]
    by (intro exI[of _ out]) blast
qed

lemma bit_length_eq: "2 ^ k \<le> n \<Longrightarrow> n < 2 ^ Suc k \<Longrightarrow> bit_length n = Suc k"
proof (induction k arbitrary: n)
  case 0
  then have "n = 1" by simp
  then show ?case by (simp add: bit_length.simps[of "Suc 0"] bit_length.simps[of 0])
next
  case (Suc k)
  have "2 ^ k \<le> n div 2" using Suc.prems(1) by simp
  moreover have "n div 2 < 2 ^ Suc k" using Suc.prems(2) by simp
  ultimately have "bit_length (n div 2) = Suc k" by (rule Suc.IH)
  moreover have "n \<noteq> 0"
  proof -
    have "(0::nat) < 2 ^ Suc k" by simp
    then show ?thesis using Suc.prems(1) by linarith
  qed
  ultimately show ?case by (subst bit_length.simps) simp
qed

text \<open>
  The first integer that binary64 does not hold: \<open>2\<^sup>5\<^sup>3 + 1\<close> comes back as
  \<open>2\<^sup>5\<^sup>3\<close>.
\<close>

lemma float64_of_int_example: "float64_of_int 9007199254740993 = 9007199254740992"
proof -
  have "bit_length (nat 9007199254740993) = Suc 53"
    by (rule bit_length_eq) simp_all
  then show ?thesis by (simp add: float64_of_int_def)
qed

lemmas eval_load = load_cases regular_grid_def date_range_def five_min_def slot_label_def
  has_gap_def float64_of_int_def upt_rec[of _ "numeral _"] upt_rec[of _ "Suc _"]

theorem regular_series_grid_witness:
  "[(Ts 0, Lab 1), (Ts 600000000000, Lab 1)] \<noteq> []
   \<and> parseable [(Ts 0, Lab 1), (Ts 600000000000, Lab 1)]
   \<and> distinct (timestamps_of [(Ts 0, Lab 1), (Ts 600000000000, Lab 1)])
   \<and> load_txt_to_dataframe [(Ts 0, Lab 1), (Ts 600000000000, Lab 1)]
       = Inr [(0, 1), (300000000000, 0), (600000000000, 1)]"
  using regular_series_grid[of "[(Ts 0, Lab 1), (Ts 600000000000, Lab 1)]"]
  by (simp add: parseable_def eval_load)

text \<open>
  The claim as it is written asks the series to reach the latest input timestamp.  With
  observations at 00:00 and 00:07 the series is 00:00, 00:05: it ends before 00:07.
\<close>

theorem regular_series_cover_counterexample:
  "load_txt_to_dataframe [(Ts 0, Lab 1), (Ts 420000000000, Lab 1)]
     = Inr [(0, 1), (300000000000, 0)]
   \<and> Max (set (timestamps_of [(Ts 0, Lab 1), (Ts 420000000000, Lab 1)])) = 420000000000
   \<and> fst (last [(0 :: int, 1 :: int), (300000000000, 0)]) < 420000000000"
  by (simp add: eval_load)

subsection \<open>When loading fails\<close>




text \<open>
  Claim C10.  When two rows of the input have the same timestamp, loading raises, and
  the error is passed on by the forecast and by the endpoint, so no forecast is made;
  no row is dropped or merged to resolve the duplicate.  When no cell is rejected, the
  error is the one \<^verbatim>\<open>reindex\<close> raises for duplicate labels.
\<close>

theorem duplicate_timestamps_raise:
  assumes "i < j" and "j < length rows"
    and "fst (rows ! i) = Ts t" and "fst (rows ! j) = Ts t"
  shows "(\<exists>e. load_txt_to_dataframe rows = Inl e
            \<and> forecast_12h_from_txt rows = Inl e
            \<and> compute_forecast rows threshold = Inl e)
         \<and> (TsText \<notin> fst ` set rows \<longrightarrow> LabBad \<notin> snd ` set rows \<longrightarrow>
              load_txt_to_dataframe rows = Inl DuplicateLabelsError)"
proof -
  have nd: "\<not> distinct (map fst rows)"
    using assms by (rule duplicate_rows_not_distinct)
  have ne: "rows \<noteq> []" using assms(2) by auto
  have "rows ! i \<in> set rows" using assms(1,2) by simp
  then have "Ts t \<in> fst ` set rows" using assms(3) by (metis imageI)
  then have tne: "timestamps_of rows \<noteq> []" using timestamps_of_set[of t rows] by auto
  have "\<exists>e. load_txt_to_dataframe rows = Inl e"
    unfolding load_cases[of rows] using nd by simp
  then obtain e where e: "load_txt_to_dataframe rows = Inl e" ..
  have "forecast_12h_from_txt rows = Inl e"
    using e by (simp add: forecast_12h_from_txt_def forecast_probabilities_def)
  moreover have "TsText \<notin> fst ` set rows \<longrightarrow> LabBad \<notin> snd ` set rows \<longrightarrow>
      load_txt_to_dataframe rows = Inl DuplicateLabelsError"
    unfolding load_cases[of rows] using nd ne tne by simp
  ultimately show ?thesis using e by (simp add: compute_forecast_def)
qed

theorem duplicate_timestamps_raise_witness:
  "(0 :: nat) < 1 \<and> 1 < length [(Ts 0, Lab 0), (Ts 0, Lab 1)]
   \<and> fst ([(Ts 0, Lab 0), (Ts 0, Lab 1)] ! 0) = Ts 0
   \<and> fst ([(Ts 0, Lab 0), (Ts 0, Lab 1)] ! 1) = Ts 0
   \<and> TsText \<notin> fst ` set [(Ts 0, Lab 0), (Ts 0, Lab 1)]
   \<and> LabBad \<notin> snd ` set [(Ts 0, Lab 0), (Ts 0, Lab 1)]
   \<and> load_txt_to_dataframe [(Ts 0, Lab 0), (Ts 0, Lab 1)] = Inl DuplicateLabelsError
   \<and> forecast_12h_from_txt [(Ts 0, Lab 0), (Ts 0, Lab 1)] = Inl DuplicateLabelsError
   \<and> compute_forecast [(Ts 0, Lab 0), (Ts 0, Lab 1)] (6 / 10) = Inl DuplicateLabelsError"
  using duplicate_timestamps_raise[of 0 1 "[(Ts 0, Lab 0), (Ts 0, Lab 1)]" 0 "6 / 10"]
  by auto

subsection \<open>Observations off the grid\<close>




subsection \<open>The trainer\<close>

lemma dot_sum:
  "length u = n \<Longrightarrow> length v = n \<Longrightarrow> dot u v = (\<Sum>k<n. u ! k * v ! k)"
  by (simp add: dot_def sum_list_sum_nth atLeast0LessThan)

lemma sigmoid_clamp: "sigmoid z = 1 / (1 + exp (- max (- 500) (min 500 z)))"
proof -
  have "min (max z (- 500)) 500 = max (- 500) (min 500 z)" by simp
  then show ?thesis by (simp only: sigmoid_def clip_def)
qed

lemma transpose_columns:
  assumes "M \<noteq> []" and "\<forall>r \<in> set M. length r = n"
  shows "transpose M = map (\<lambda>j. map (\<lambda>i. M ! i ! j) [0..<length M]) [0..<n]"
  using assms by (intro transpose_rectangle) simp_all

lemma add_bias_nth: "i < length X \<Longrightarrow> add_bias X ! i = 1 # X ! i"
  by (simp add: add_bias_def)

lemma add_bias_rows:
  "\<forall>r \<in> set X. length r = n \<Longrightarrow> \<forall>r \<in> set (add_bias X). length r = Suc n"
  by (auto simp: add_bias_def)

lemma y_pred_nth:
  assumes "\<forall>r \<in> set X. length r = 7" and "length w = 8" and "i < length X"
  shows "map sigmoid (matvec (add_bias X) w) ! i = spec_probability X w i"
proof -
  have "length (1 # X ! i) = 8" using assms(1,3) by simp
  then have "dot (1 # X ! i) w = (\<Sum>k<8. (1 # X ! i) ! k * w ! k)"
    using assms(2) by (rule dot_sum)
  then show ?thesis
    using assms(3) by (simp add: matvec_def add_bias_def sigmoid_clamp spec_probability_def)
qed

lemma base_gradient_nth:
  assumes X: "X \<noteq> []" and rows: "\<forall>r \<in> set X. length r = 7" and y: "length y = length X"
    and w: "length w = 8" and j: "j < 8"
  shows "map (\<lambda>s. s / real (length y))
           (matvec (transpose (add_bias X))
              (map2 (-) (map sigmoid (matvec (add_bias X) w)) (map real_of_int y))) ! j
         = (\<Sum>i<length X. (1 # X ! i) ! j * (spec_probability X w i - real_of_int (y ! i)))
             / real (length X)"
proof -
  let ?Xb = "add_bias X"
  let ?v = "map2 (-) (map sigmoid (matvec ?Xb w)) (map real_of_int y)"
  have lenXb: "length ?Xb = length X" by (simp add: add_bias_def)
  have ne: "?Xb \<noteq> []" using X by (simp add: add_bias_def)
  have tr: "transpose ?Xb = map (\<lambda>j. map (\<lambda>i. ?Xb ! i ! j) [0..<length ?Xb]) [0..<8]"
    using ne add_bias_rows[OF rows] by (intro transpose_columns) simp_all
  have lenv: "length ?v = length X" using y by (simp add: matvec_def add_bias_def)
  have vi: "?v ! i = spec_probability X w i - real_of_int (y ! i)" if "i < length X" for i
    using that y y_pred_nth[OF rows w that] by (simp add: matvec_def add_bias_def)
  have "matvec (transpose ?Xb) ?v ! j = dot (map (\<lambda>i. ?Xb ! i ! j) [0..<length X]) ?v"
    using j by (simp add: tr matvec_def lenXb)
  also have "\<dots> = (\<Sum>i<length X. map (\<lambda>i. ?Xb ! i ! j) [0..<length X] ! i * ?v ! i)"
    using lenv by (intro dot_sum) simp_all
  also have "\<dots> = (\<Sum>i<length X. (1 # X ! i) ! j * (spec_probability X w i - real_of_int (y ! i)))"
    by (rule sum.cong) (simp_all add: vi add_bias_nth)
  finally have m: "matvec (transpose ?Xb) ?v ! j
      = (\<Sum>i<length X. (1 # X ! i) ! j * (spec_probability X w i - real_of_int (y ! i)))" .
  have "length (matvec (transpose ?Xb) ?v) = 8" by (simp add: tr matvec_def)
  then show ?thesis using j m y by simp
qed

lemma base_gradient_length:
  assumes X: "X \<noteq> []" and rows: "\<forall>r \<in> set X. length r = 7"
  shows "length (map (\<lambda>s. s / c) (matvec (transpose (add_bias X)) v)) = 8"
proof -
  have ne: "add_bias X \<noteq> []" using X by (simp add: add_bias_def)
  have "transpose (add_bias X)
      = map (\<lambda>j. map (\<lambda>i. add_bias X ! i ! j) [0..<length (add_bias X)]) [0..<8]"
    using ne add_bias_rows[OF rows] by (intro transpose_columns) simp_all
  then show ?thesis by (simp add: matvec_def)
qed

lemma penalty_nth:
  assumes "length w = 8" and "j < 8"
  shows "map ((*) l2) (0 # drop 1 w) ! j = (if j \<noteq> 0 then l2 * w ! j else (0 :: real))"
  using assms by (cases j) simp_all

lemma gradient_of_spec:
  assumes X: "X \<noteq> []" and rows: "\<forall>r \<in> set X. length r = 7" and y: "length y = length X"
    and w: "length w = 8"
  shows "gradient_of (add_bias X) y l2 w = map (spec_gradient X y l2 w) [0..<8]"
proof (rule nth_equalityI)
  let ?g = "map (\<lambda>s. s / real (length y))
           (matvec (transpose (add_bias X))
              (map2 (-) (map sigmoid (matvec (add_bias X) w)) (map real_of_int y)))"
  have lg: "length ?g = 8" using X rows by (rule base_gradient_length)
  have lp: "length (map ((*) l2) (0 # drop 1 w)) = 8" using w by simp
  have gdef: "gradient_of (add_bias X) y l2 w
      = (if l2 > 0 then map2 (+) ?g (map ((*) l2) (0 # drop 1 w)) else ?g)"
    by (simp only: gradient_of_def Let_def)
  show len: "length (gradient_of (add_bias X) y l2 w) = length (map (spec_gradient X y l2 w) [0..<8])"
    unfolding gdef using lg lp by simp
  fix j assume "j < length (gradient_of (add_bias X) y l2 w)"
  then have j: "j < 8" using len by simp
  have b: "?g ! j = (\<Sum>i<length X. (1 # X ! i) ! j * (spec_probability X w i - real_of_int (y ! i)))
             / real (length X)"
    using X rows y w j by (rule base_gradient_nth)
  show "gradient_of (add_bias X) y l2 w ! j = map (spec_gradient X y l2 w) [0..<8] ! j"
  proof (cases "l2 > 0")
    case True
    have "map2 (+) ?g (map ((*) l2) (0 # drop 1 w)) ! j = ?g ! j + map ((*) l2) (0 # drop 1 w) ! j"
      using lg lp j by simp
    then show ?thesis
      unfolding gdef using True j b penalty_nth[OF w j, of l2]
      by (simp add: spec_gradient_def del: drop_Suc_Cons drop_Suc drop0)
  next
    case False
    then show ?thesis unfolding gdef using j b by (simp add: spec_gradient_def)
  qed
qed

lemma update_spec:
  assumes X: "X \<noteq> []" and rows: "\<forall>r \<in> set X. length r = 7" and y: "length y = length X"
    and w: "length w = 8"
  shows "map2 (-) w (map ((*) learning_rate) (gradient_of (add_bias X) y l2 w))
         = spec_update learning_rate X y l2 w"
  unfolding gradient_of_spec[OF X rows y w] spec_update_def
  using w by (intro nth_equalityI) simp_all

lemma norm_spec:
  assumes X: "X \<noteq> []" and rows: "\<forall>r \<in> set X. length r = 7" and y: "length y = length X"
    and w: "length w = 8"
  shows "linalg_norm (gradient_of (add_bias X) y l2 w) < 1 / 1000000
         \<longleftrightarrow> spec_converged X y l2 w"
proof -
  have "sum_list (map (\<lambda>x. x * x) (map (spec_gradient X y l2 w) [0..<8]))
      = (\<Sum>j<8. (spec_gradient X y l2 w j)\<^sup>2)"
    by (simp add: comp_def interv_sum_list_conv_sum_set_nat atLeast0LessThan power2_eq_square)
  then show ?thesis
    unfolding gradient_of_spec[OF X rows y w] linalg_norm_def spec_converged_def by simp
qed

lemma spec_update_length: "length (spec_update learning_rate X y l2 w) = 8"
  by (simp add: spec_update_def)

lemma funpow_spec_update_length:
  "length w = 8 \<Longrightarrow> length ((spec_update learning_rate X y l2 ^^ m) w) = 8"
  by (cases m) (simp_all add: spec_update_length)

lemma train_loop_spec:
  assumes X: "X \<noteq> []" and rows: "\<forall>r \<in> set X. length r = 7" and y: "length y = length X"
  shows "length w = 8 \<Longrightarrow>
    \<exists>m \<le> k. train_loop k (add_bias X) y learning_rate l2 w
                = (spec_update learning_rate X y l2 ^^ m) w
      \<and> (\<forall>i. Suc i < m \<longrightarrow>
            \<not> spec_converged X y l2 ((spec_update learning_rate X y l2 ^^ i) w))
      \<and> (m = k \<or> (0 < m \<and>
            spec_converged X y l2 ((spec_update learning_rate X y l2 ^^ (m - 1)) w)))"
proof (induction k arbitrary: w)
  case 0
  then show ?case by simp
next
  case (Suc k)
  let ?U = "spec_update learning_rate X y l2"
  note w = Suc.prems
  have step: "train_loop (Suc k) (add_bias X) y learning_rate l2 w
      = (if spec_converged X y l2 w then ?U w
         else train_loop k (add_bias X) y learning_rate l2 (?U w))"
    unfolding train_loop.simps Let_def update_spec[OF X rows y w] norm_spec[OF X rows y w]
    by (rule refl)
  show ?case
  proof (cases "spec_converged X y l2 w")
    case True
    have "train_loop (Suc k) (add_bias X) y learning_rate l2 w = (?U ^^ 1) w"
      using step True by simp
    moreover have "\<forall>i. Suc i < 1 \<longrightarrow> \<not> spec_converged X y l2 ((?U ^^ i) w)" by simp
    moreover have "0 < (1::nat) \<and> spec_converged X y l2 ((?U ^^ (1 - 1)) w)" using True by simp
    ultimately show ?thesis by (intro exI[of _ 1]) simp
  next
    case False
    have "length (?U w) = 8" by (rule spec_update_length)
    from Suc.IH[OF this] obtain m where m: "m \<le> k"
      and eq: "train_loop k (add_bias X) y learning_rate l2 (?U w) = (?U ^^ m) (?U w)"
      and before: "\<forall>i. Suc i < m \<longrightarrow> \<not> spec_converged X y l2 ((?U ^^ i) (?U w))"
      and stop: "m = k \<or> (0 < m \<and> spec_converged X y l2 ((?U ^^ (m - 1)) (?U w)))"
      by blast
    have sw: "(?U ^^ i) (?U w) = (?U ^^ Suc i) w" for i by (simp add: funpow_swap1)
    have a: "train_loop (Suc k) (add_bias X) y learning_rate l2 w = (?U ^^ Suc m) w"
      using step False eq sw by simp
    have b: "\<forall>i. Suc i < Suc m \<longrightarrow> \<not> spec_converged X y l2 ((?U ^^ i) w)"
    proof (intro allI impI)
      fix i assume i: "Suc i < Suc m"
      show "\<not> spec_converged X y l2 ((?U ^^ i) w)"
      proof (cases i)
        case 0
        then show ?thesis using False by simp
      next
        case (Suc i')
        then have "Suc i' < m" using i by simp
        then have "\<not> spec_converged X y l2 ((?U ^^ i') (?U w))" using before by blast
        then show ?thesis unfolding sw using Suc by simp
      qed
    qed
    have c: "Suc m = Suc k \<or> (0 < Suc m \<and> spec_converged X y l2 ((?U ^^ (Suc m - 1)) w))"
    proof (cases "m = k")
      case True
      then show ?thesis by simp
    next
      case False
      then have "0 < m" and s: "spec_converged X y l2 ((?U ^^ (m - 1)) (?U w))" using stop by auto
      then have "Suc (m - 1) = m" by simp
      then have "(?U ^^ (m - 1)) (?U w) = (?U ^^ m) w" using sw[of "m - 1"] by simp
      then show ?thesis using s by simp
    qed
    show ?thesis using m a b c by (intro exI[of _ "Suc m"]) simp
  qed
qed

text \<open>
  Claim C1.  For a feature matrix of at least one row, each row of 7 reals, and a label
  vector of the same length, the trainer returns 8 weights, and they are the result of
  \<open>m\<close> steps of the specification's update from the all-zero vector, for some
  \<open>m\<close> that is at most \<open>iterations\<close>: the stopping test failed on the
  gradient of every step but the last, and either \<open>m\<close> is \<open>iterations\<close> or
  the test held on the gradient of the last step (the weights are updated with that
  gradient before the loop is left).  Each step is the specification's: the bias column
  of ones, the clamped sigmoid, the mean gradient, and the penalty on every component but
  the bias exactly when \<open>l2 > 0\<close>.
\<close>

theorem logistic_regression_train_steps:
  assumes "X \<noteq> []" and "\<forall>r \<in> set X. length r = 7" and "length y = length X"
  shows "length (logistic_regression_train X y learning_rate iterations l2) = 8
    \<and> (\<exists>m \<le> nat iterations.
        logistic_regression_train X y learning_rate iterations l2
          = (spec_update learning_rate X y l2 ^^ m) (replicate 8 0)
      \<and> (\<forall>i. Suc i < m \<longrightarrow>
            \<not> spec_converged X y l2 ((spec_update learning_rate X y l2 ^^ i) (replicate 8 0)))
      \<and> (m = nat iterations \<or> (0 < m \<and>
            spec_converged X y l2
              ((spec_update learning_rate X y l2 ^^ (m - 1)) (replicate 8 0)))))"
proof -
  obtain r X' where X: "X = r # X'" using assms(1) by (cases X) auto
  then have "length r = 7" using assms(2) by simp
  then have sh: "shape1 (add_bias X) = 8" using X by (simp add: shape1_def add_bias_def)
  have tr: "logistic_regression_train X y learning_rate iterations l2
      = train_loop (nat iterations) (add_bias X) y learning_rate l2 (replicate 8 0)"
    by (simp add: logistic_regression_train_def Let_def sh)
  have l0: "length (replicate 8 (0::real)) = 8" by simp
  from train_loop_spec[OF assms l0, of "nat iterations" learning_rate l2]
  obtain m where m: "m \<le> nat iterations"
    and eq: "train_loop (nat iterations) (add_bias X) y learning_rate l2 (replicate 8 0)
                = (spec_update learning_rate X y l2 ^^ m) (replicate 8 0)"
    and rest: "(\<forall>i. Suc i < m \<longrightarrow>
            \<not> spec_converged X y l2 ((spec_update learning_rate X y l2 ^^ i) (replicate 8 0)))"
       "(m = nat iterations \<or> (0 < m \<and>
            spec_converged X y l2
              ((spec_update learning_rate X y l2 ^^ (m - 1)) (replicate 8 0))))"
    by blast
  have "length (logistic_regression_train X y learning_rate iterations l2) = 8"
    unfolding tr eq using funpow_spec_update_length[OF l0] .
  then show ?thesis using m eq rest unfolding tr by blast
qed

theorem logistic_regression_train_steps_witness:
  "[[0, 0, 0, 0, 0, 0, 0 :: real]] \<noteq> []
   \<and> length [0, 0, 0, 0, 0, 0, 0 :: real] = 7
   \<and> length [0 :: int] = length [[0, 0, 0, 0, 0, 0, 0 :: real]]
   \<and> length (logistic_regression_train [[0, 0, 0, 0, 0, 0, 0]] [0] (5 / 100) 3000 (1 / 100)) = 8
   \<and> (\<exists>m \<le> nat 3000.
        logistic_regression_train [[0, 0, 0, 0, 0, 0, 0]] [0] (5 / 100) 3000 (1 / 100)
          = (spec_update (5 / 100) [[0, 0, 0, 0, 0, 0, 0]] [0] (1 / 100) ^^ m) (replicate 8 0))"
proof -
  have "\<forall>r \<in> set [[0, 0, 0, 0, 0, 0, 0 :: real]]. length r = 7" by simp
  from logistic_regression_train_steps[OF _ this, of "[0]" "5 / 100" 3000 "1 / 100"]
  show ?thesis by auto
qed

subsection \<open>The forecast\<close>

lemma Max_strict_sorted_last:
  assumes "sorted_wrt (<) (xs :: int list)" and "xs \<noteq> []"
  shows "Max (set xs) = last xs"
proof (rule Max_eqI)
  show "finite (set xs)" by simp
  show "last xs \<in> set xs" using assms(2) by simp
  fix y assume "y \<in> set xs"
  then obtain i where i: "i < length xs" and y: "y = xs ! i" by (auto simp: in_set_conv_nth)
  have "sorted xs" using assms(1) by (rule strict_sorted_imp_sorted)
  then have "xs ! i \<le> xs ! (length xs - 1)" using i by (intro sorted_nth_mono) simp_all
  then show "y \<le> last xs" using y assms(2) by (simp add: last_conv_nth)
qed

lemma load_last_timestamp:
  assumes "load_txt_to_dataframe rows = Inr df"
  shows "df \<noteq> []" and "Max (set (map fst df)) = fst (last df)"
    and "fst (last df) = last (regular_grid rows)"
proof -
  note f = load_Inr_form[OF assms]
  have idx: "map fst df = regular_grid rows" unfolding f(6) by (rule map_fst_slots)
  show ne: "df \<noteq> []" using grid_props(1)[OF f(4)] idx by auto
  have "sorted_wrt (<) (map fst df)" unfolding idx regular_grid_def by (rule date_range_sorted)
  then have "Max (set (map fst df)) = last (map fst df)"
    using ne by (intro Max_strict_sorted_last) simp_all
  then show "Max (set (map fst df)) = fst (last df)" using ne by (simp add: last_map)
  show "fst (last df) = last (regular_grid rows)" using ne idx by (metis last_map)
qed

lemma predict_nth:
  "k < length ts \<Longrightarrow>
   predict_logistic_regression (add_bias (map features ts)) w ! k
     = sigmoid (dot (1 # features (ts ! k)) w)"
  by (simp add: predict_logistic_regression_def matvec_def add_bias_def)

lemma predict_length:
  "length (predict_logistic_regression (add_bias (map features ts)) w) = length ts"
  by (simp add: predict_logistic_regression_def matvec_def add_bias_def)

lemma forecast_probabilities_Inr:
  assumes "load_txt_to_dataframe rows = Inr df"
  shows "forecast_probabilities rows =
     Inr (date_range_periods (fst (last df) + five_min) 144,
          predict_logistic_regression
            (add_bias (map features (date_range_periods (fst (last df) + five_min) 144)))
            (logistic_regression_train (map (\<lambda>r. features (fst r)) df) (map snd df)
               (5 / 100) 3000 (1 / 100)))"
  using assms load_last_timestamp(2)[OF assms]
  by (simp add: forecast_probabilities_def Let_def)

lemma forecast_points:
  assumes "load_txt_to_dataframe rows = Inr df"
  shows "\<exists>preds. forecast_12h_from_txt rows = Inr preds
    \<and> length preds = 144
    \<and> (\<forall>k < 144.
          fst (preds ! k) = fst (last df) + five_min + int k * five_min
        \<and> snd (preds ! k) =
            (if sigmoid (dot (1 # features (fst (preds ! k)))
                    (logistic_regression_train (map (\<lambda>r. features (fst r)) df) (map snd df)
                       (5 / 100) 3000 (1 / 100))) \<ge> 6 / 10
             then 1 else 0))"
proof -
  let ?w = "logistic_regression_train (map (\<lambda>r. features (fst r)) df) (map snd df)
              (5 / 100) 3000 (1 / 100)"
  let ?ts = "date_range_periods (fst (last df) + five_min) 144"
  let ?probs = "predict_logistic_regression (add_bias (map features ?ts)) ?w"
  let ?dec = "map (\<lambda>p. if p \<ge> 6 / 10 then 1 else (0 :: int)) ?probs"
  let ?preds = "zip ?ts ?dec"
  have lts: "length ?ts = 144" by (simp add: date_range_periods_def)
  have lpr: "length ?probs = 144" using lts by (simp only: predict_length)
  have ldec: "length ?dec = 144" using lpr by simp
  have f: "forecast_12h_from_txt rows = Inr ?preds"
    by (simp add: forecast_12h_from_txt_def forecast_probabilities_Inr[OF assms])
  have len: "length ?preds = 144" using lts ldec by simp
  have pt: "fst (?preds ! k) = fst (last df) + five_min + int k * five_min
      \<and> snd (?preds ! k) =
          (if sigmoid (dot (1 # features (fst (?preds ! k))) ?w) \<ge> 6 / 10 then 1 else 0)"
    if k: "k < 144" for k
  proof -
    have tk: "?ts ! k = fst (last df) + five_min + int k * five_min"
      using k by (simp add: date_range_periods_def)
    have pk: "?probs ! k = sigmoid (dot (1 # features (?ts ! k)) ?w)"
      using k lts by (intro predict_nth) simp
    have dk: "?dec ! k = (if ?probs ! k \<ge> 6 / 10 then 1 else 0)"
      using k lpr by simp
    have zk: "?preds ! k = (?ts ! k, ?dec ! k)"
      using k lts ldec by (intro nth_zip) simp_all
    show ?thesis unfolding zk fst_conv snd_conv dk pk using tk by simp
  qed
  show ?thesis using f len pt by blast
qed

text \<open>
  Claim C2, as the code has it.  Whenever the history loads, whatever its length, the
  forecast is a list of exactly 144 points; point \<open>k\<close> is stamped five minutes times
  \<open>k + 1\<close> after the last timestamp of the regular series, and its value is 1 when
  the probability the trained model gives that timestamp is at least 0.6, and 0
  otherwise.  The last timestamp of the regular series is the last grid instant at or
  before the latest timestamp of the input, less than five minutes before it, and equal
  to it only when the latest timestamp lies on the grid.
\<close>

theorem forecast_144_points:
  assumes "load_txt_to_dataframe rows = Inr df"
  shows "(\<exists>preds. forecast_12h_from_txt rows = Inr preds
      \<and> length preds = 144
      \<and> (\<forall>k < 144.
            fst (preds ! k) = fst (last df) + five_min + int k * five_min
          \<and> snd (preds ! k) =
              (if sigmoid (dot (1 # features (fst (preds ! k)))
                      (logistic_regression_train (map (\<lambda>r. features (fst r)) df) (map snd df)
                         (5 / 100) 3000 (1 / 100))) \<ge> 6 / 10
               then 1 else 0)))
    \<and> fst (last df) = Min (set (timestamps_of rows))
          + five_min * ((Max (set (timestamps_of rows)) - Min (set (timestamps_of rows))) div five_min)
    \<and> fst (last df) \<le> Max (set (timestamps_of rows))
    \<and> Max (set (timestamps_of rows)) < fst (last df) + five_min
    \<and> (fst (last df) = Max (set (timestamps_of rows)) \<longleftrightarrow>
          (Max (set (timestamps_of rows)) - Min (set (timestamps_of rows))) mod five_min = 0)"
proof -
  let ?a = "Min (set (timestamps_of rows))" and ?b = "Max (set (timestamps_of rows))"
  note f = load_Inr_form[OF assms]
  have lst: "fst (last df) = last (regular_grid rows)" using load_last_timestamp(3)[OF assms] .
  have lastv: "fst (last df) = ?a + five_min * ((?b - ?a) div five_min)"
    using lst grid_props(3)[OF f(4)] by simp
  have le: "fst (last df) \<le> ?b" and lt: "?b < fst (last df) + five_min"
    using lst grid_last_bounds[OF f(4)] by simp_all
  have dm: "five_min * ((?b - ?a) div five_min) + (?b - ?a) mod five_min = ?b - ?a"
    by (rule mult_div_mod_eq)
  have eq: "fst (last df) = ?b \<longleftrightarrow> (?b - ?a) mod five_min = 0"
    using lastv dm by linarith
  show ?thesis using forecast_points[OF assms] lastv le lt eq by blast
qed

theorem forecast_144_points_witness:
  "load_txt_to_dataframe [(Ts 0, Lab 1)] = Inr [(0, 1)]
   \<and> (\<exists>preds. forecast_12h_from_txt [(Ts 0, Lab 1)] = Inr preds
        \<and> length preds = 144
        \<and> fst (preds ! 0) = 300000000000
        \<and> fst (preds ! 143) = 43200000000000)"
proof -
  have l: "load_txt_to_dataframe [(Ts 0, Lab 1)] = Inr [(0, 1)]"
    by (simp add: eval_load)
  from forecast_144_points[OF l] obtain preds where
    p: "forecast_12h_from_txt [(Ts 0, Lab 1)] = Inr preds" "length preds = 144"
    and k: "\<forall>k < 144. fst (preds ! k) = fst (last [(0 :: int, 1 :: int)]) + five_min + int k * five_min"
    by blast
  have "fst (preds ! 0) = 300000000000" using k by (simp add: five_min_def)
  moreover have "fst (preds ! 143) = 43200000000000" using k by (simp add: five_min_def)
  ultimately show ?thesis using l p by blast
qed

text \<open>
  The claim as it is written starts the forecast five minutes after the last historical
  timestamp.  For the history 00:00, 00:07 the first point is 00:10, and five minutes
  after the last historical timestamp is 00:12.
\<close>

theorem forecast_start_counterexample:
  "fst (projr (forecast_12h_from_txt [(Ts 0, Lab 1), (Ts 420000000000, Lab 1)]) ! 0) = 600000000000
   \<and> Max (set (timestamps_of [(Ts 0, Lab 1), (Ts 420000000000, Lab 1)])) + five_min = 720000000000"
proof -
  have l: "load_txt_to_dataframe [(Ts 0, Lab 1), (Ts 420000000000, Lab 1)]
      = Inr [(0, 1), (300000000000, 0)]"
    by (simp add: eval_load)
  from forecast_points[OF l] obtain preds where
    p: "forecast_12h_from_txt [(Ts 0, Lab 1), (Ts 420000000000, Lab 1)] = Inr preds"
    and k: "\<forall>k < 144. fst (preds ! k)
        = fst (last [(0 :: int, 1 :: int), (300000000000, 0)]) + five_min + int k * five_min"
    by blast
  have "fst (preds ! 0) = 600000000000" using k by (simp add: five_min_def)
  then show ?thesis unfolding p by (simp add: five_min_def)
qed






text \<open>
  The endpoint never passes its \<open>threshold\<close> on: its answer is that of the
  pipeline, which compares with 0.6, whatever threshold the caller gives.
\<close>

lemma compute_forecast_ignores_threshold:
  "compute_forecast file t1 = compute_forecast file t2
   \<and> compute_forecast file t1 = forecast_12h_from_txt file"
  by (simp add: compute_forecast_def)

subsection \<open>The defaults of the trainer\<close>

lemma train_loop_Suc_spec:
  assumes X: "X \<noteq> []" and rows: "\<forall>r \<in> set X. length r = 7" and y: "length y = length X"
    and w: "length w = 8"
  shows "train_loop (Suc k) (add_bias X) y learning_rate l2 w
      = (if spec_converged X y l2 w then spec_update learning_rate X y l2 w
         else train_loop k (add_bias X) y learning_rate l2 (spec_update learning_rate X y l2 w))"
  unfolding train_loop.simps Let_def update_spec[OF X rows y w] norm_spec[OF X rows y w]
  by (rule refl)

lemma train_two_steps:
  assumes X: "X \<noteq> []" and rows: "\<forall>r \<in> set X. length r = 7" and y: "length y = length X"
    and nc: "\<not> spec_converged X y l2 (replicate 8 0)"
  shows "logistic_regression_train X y learning_rate 2 l2
      = spec_update learning_rate X y l2 (spec_update learning_rate X y l2 (replicate 8 0))"
proof -
  obtain r X' where Xc: "X = r # X'" using X by (cases X) auto
  then have "length r = 7" using rows by simp
  then have sh: "shape1 (add_bias X) = 8" using Xc by (simp add: shape1_def add_bias_def)
  have two: "nat 2 = Suc (Suc 0)" by simp
  have l0: "length (replicate 8 (0::real)) = 8" by simp
  have l1: "length (spec_update learning_rate X y l2 (replicate 8 0)) = 8"
    by (rule spec_update_length)
  show ?thesis
    unfolding logistic_regression_train_def Let_def sh two
      train_loop_Suc_spec[OF X rows y l0] train_loop_Suc_spec[OF X rows y l1]
    using nc by simp
qed

lemma spec_probability_zero:
  "spec_probability X (replicate 8 0) i = 1 / 2"
proof -
  have "(\<Sum>k<8. (1 # X ! i) ! k * replicate 8 (0::real) ! k) = 0"
    by (rule sum.neutral) simp
  then show ?thesis by (simp add: spec_probability_def)
qed

lemma spec_gradient_one_row:
  "spec_gradient [x] [0] l2 w j
     = (1 # x) ! j * spec_probability [x] w 0 + (if l2 > 0 \<and> j \<noteq> 0 then l2 * w ! j else 0)"
  by (simp add: spec_gradient_def)

lemma not_converged_at_zero:
  "\<not> spec_converged [x] [0] l2 (replicate 8 0)"
proof -
  let ?g = "\<lambda>j. spec_gradient [x] [0] l2 (replicate 8 0) j"
  have g0: "?g 0 = 1 / 2"
    by (simp add: spec_gradient_one_row spec_probability_zero)
  have "(?g 0)\<^sup>2 \<le> (\<Sum>j<8. (?g j)\<^sup>2)"
    by (rule member_le_sum) simp_all
  then have "1 / 4 \<le> (\<Sum>j<8. (?g j)\<^sup>2)" unfolding g0 by (simp add: power2_eq_square)
  then have "sqrt (1 / 4) \<le> sqrt (\<Sum>j<8. (?g j)\<^sup>2)" by (simp only: real_sqrt_le_iff)
  moreover have "sqrt (1 / 4) = 1 / 2"
    by (rule real_sqrt_unique) (simp_all add: power2_eq_square)
  ultimately have "1 / 2 \<le> sqrt (\<Sum>j<8. (?g j)\<^sup>2)" by simp
  then show ?thesis unfolding spec_converged_def by simp
qed

lemma first_step_same:
  "spec_update learning_rate [x] [0] l2 (replicate 8 0)
     = map (\<lambda>j. - learning_rate * ((1 # x) ! j * (1 / 2))) [0..<8]"
  unfolding spec_update_def
  by (rule map_cong) (simp_all add: spec_gradient_one_row spec_probability_zero)

text \<open>
  The claim as it is written makes 0.01 the default of \<open>l2\<close>.  The default of the
  signature is 0.0: with \<open>l2\<close> left out (and two iterations, so that the weights
  can be compared), training one row does not give the weights that \<open>l2 = 0.01\<close>
  gives.
\<close>

theorem default_l2_counterexample:
  "default_l2 \<noteq> 1 / 100
   \<and> logistic_regression_train_kw [[1, 0, 0, 0, 0, 0, 0]] [0] None (Some 2) None
       \<noteq> logistic_regression_train [[1, 0, 0, 0, 0, 0, 0]] [0] (5 / 100) 2 (1 / 100)"
proof -
  let ?x = "[1, 0, 0, 0, 0, 0, 0 :: real]"
  let ?w1 = "map (\<lambda>j. - (5 / 100) * ((1 # ?x) ! j * (1 / 2))) [0..<8]"
  have rows: "\<forall>r \<in> set [?x]. length r = 7" by simp
  have a: "logistic_regression_train [?x] [0] (5 / 100) 2 0
      = spec_update (5 / 100) [?x] [0] 0 ?w1"
    using train_two_steps[where X = "[?x]" and y = "[0]" and ?l2.0 = 0
        and learning_rate = "5 / 100", OF _ rows _ not_converged_at_zero]
    by (simp only: first_step_same) simp
  have b: "logistic_regression_train [?x] [0] (5 / 100) 2 (1 / 100)
      = spec_update (5 / 100) [?x] [0] (1 / 100) ?w1"
    using train_two_steps[where X = "[?x]" and y = "[0]" and ?l2.0 = "1 / 100"
        and learning_rate = "5 / 100", OF _ rows _ not_converged_at_zero]
    by (simp only: first_step_same) simp
  have w11: "?w1 ! 1 = - 1 / 40" by simp
  have "spec_update (5 / 100) [?x] [0] 0 ?w1 ! 1
      \<noteq> spec_update (5 / 100) [?x] [0] (1 / 100) ?w1 ! 1"
    unfolding spec_update_def using w11
    by (simp add: spec_gradient_one_row del: upt_Suc)
  then have "logistic_regression_train [?x] [0] (5 / 100) 2 0
      \<noteq> logistic_regression_train [?x] [0] (5 / 100) 2 (1 / 100)"
    unfolding a b by metis
  then show ?thesis
    by (simp add: logistic_regression_train_kw_def default_l2_def default_learning_rate_def)
qed

text \<open>
  Claim C4, as the code has it.  Called with no configuration, the trainer runs with
  learning rate 0.05, 3000 iterations and \<open>l2 = 0.0\<close>; with that default the
  gradient of every pass is the plain mean gradient, with no penalty added.
\<close>

theorem train_defaults:
  "logistic_regression_train_kw X y None None None
     = logistic_regression_train X y (5 / 100) 3000 0
   \<and> gradient_of Xb y default_l2 w
     = map (\<lambda>s. s / real (length y))
         (matvec (transpose Xb) (map2 (-) (map sigmoid (matvec Xb w)) (map real_of_int y)))"
  by (simp add: logistic_regression_train_kw_def default_learning_rate_def
      default_iterations_def default_l2_def gradient_of_def)

theorem train_defaults_witness:
  "logistic_regression_train_kw [[1, 0, 0, 0, 0, 0, 0]] [0] None None None
     = logistic_regression_train [[1, 0, 0, 0, 0, 0, 0]] [0] (5 / 100) 3000 0"
  using train_defaults[of "[[1, 0, 0, 0, 0, 0, 0]]" "[0]" "[]" "[]"] by blast

subsection \<open>The sigmoid\<close>

lemma round_half_even_bounds:
  "\<lfloor>x\<rfloor> \<le> round_half_even x \<and> round_half_even x \<le> \<lfloor>x\<rfloor> + 1"
  by (simp add: round_half_even_def Let_def)

lemma round_half_even_near:
  assumes "0 \<le> d" and "d < 1 / 2"
  shows "round_half_even (of_int n + d) = n"
proof -
  have f: "\<lfloor>of_int n + d\<rfloor> = n" using assms by (intro floor_unique) simp_all
  show ?thesis unfolding round_half_even_def Let_def f using assms by simp
qed

lemma floor_log_bracket:
  assumes "0 < x"
  shows "2 powr of_int \<lfloor>log 2 x\<rfloor> \<le> x" and "x < 2 powr (of_int \<lfloor>log 2 x\<rfloor> + 1)"
proof -
  have a: "of_int \<lfloor>log 2 x\<rfloor> \<le> log 2 x" by (rule of_int_floor_le)
  show "2 powr of_int \<lfloor>log 2 x\<rfloor> \<le> x"
    using a le_log_iff[of 2 x "of_int \<lfloor>log 2 x\<rfloor>"] assms by simp
  have b: "log 2 x < of_int \<lfloor>log 2 x\<rfloor> + 1" by linarith
  show "x < 2 powr (of_int \<lfloor>log 2 x\<rfloor> + 1)"
    using b log_less_iff[of 2 x "of_int \<lfloor>log 2 x\<rfloor> + 1"] assms by simp
qed

lemma ulp_scaling:
  fixes e :: real
  shows "2 powr (e - 52) * 2 ^ 52 = 2 powr e" and "2 powr (e - 52) * 2 ^ 53 = 2 powr (e + 1)"
proof -
  have p52: "(2::real) powr 52 = 2 ^ 52" by (rule powr_numeral) simp
  have "2 powr (e - 52) * 2 powr 52 = 2 powr e"
    by (simp only: powr_add[symmetric]) simp
  then show a: "2 powr (e - 52) * 2 ^ 52 = 2 powr e" by (simp only: p52)
  have "2 powr (e - 52) * 2 ^ 53 = (2 powr (e - 52) * 2 ^ 52) * 2" by simp
  also have "\<dots> = 2 powr e * 2 powr 1" by (simp only: a) simp
  also have "\<dots> = 2 powr (e + 1)" by (simp only: powr_add)
  finally show "2 powr (e - 52) * 2 ^ 53 = 2 powr (e + 1)" .
qed

lemma fl64_pos_form:
  assumes "0 < x"
  shows "fl64 x = of_int (round_half_even (x / 2 powr (of_int \<lfloor>log 2 x\<rfloor> - 52)))
                    * 2 powr (of_int \<lfloor>log 2 x\<rfloor> - 52)"
proof -
  have "x \<noteq> 0" and "\<bar>x\<bar> = x" and "sgn x = 1" using assms by simp_all
  then show ?thesis unfolding fl64_def Let_def by simp
qed

lemma mantissa_bounds:
  assumes "0 < x"
  shows "(2 ^ 52 :: int) \<le> round_half_even (x / 2 powr (of_int \<lfloor>log 2 x\<rfloor> - 52))"
    and "round_half_even (x / 2 powr (of_int \<lfloor>log 2 x\<rfloor> - 52)) \<le> (2 ^ 53 :: int)"
proof -
  let ?e = "of_int \<lfloor>log 2 x\<rfloor> :: real"
  let ?u = "2 powr (?e - 52)"
  let ?m = "x / ?u"
  have u: "0 < ?u" by simp
  have "?u * 2 ^ 52 \<le> x" unfolding ulp_scaling(1) using assms by (rule floor_log_bracket)
  then have lo: "2 ^ 52 \<le> ?m" using u by (simp only: pos_le_divide_eq mult.commute)
  have "x < ?u * 2 ^ 53" unfolding ulp_scaling(2) using assms by (rule floor_log_bracket)
  then have hi: "?m < 2 ^ 53" using u by (simp only: pos_divide_less_eq mult.commute)
  have "of_int (2 ^ 52 :: int) \<le> ?m" using lo by simp
  then have flo: "(2 ^ 52 :: int) \<le> \<lfloor>?m\<rfloor>" by (simp only: le_floor_iff)
  have "?m < of_int (2 ^ 53 :: int)" using hi by simp
  then have "\<lfloor>?m\<rfloor> < (2 ^ 53 :: int)" by (simp only: floor_less_iff)
  then have fhi: "\<lfloor>?m\<rfloor> + 1 \<le> (2 ^ 53 :: int)" by linarith
  show "(2 ^ 52 :: int) \<le> round_half_even ?m"
    using flo round_half_even_bounds[of ?m] by linarith
  show "round_half_even ?m \<le> (2 ^ 53 :: int)"
    using fhi round_half_even_bounds[of ?m] by linarith
qed

lemma fl64_bracket:
  assumes "0 < x"
  shows "2 powr of_int \<lfloor>log 2 x\<rfloor> \<le> fl64 x"
    and "fl64 x \<le> 2 powr (of_int \<lfloor>log 2 x\<rfloor> + 1)"
proof -
  let ?e = "of_int \<lfloor>log 2 x\<rfloor> :: real"
  let ?u = "2 powr (?e - 52)"
  let ?r = "round_half_even (x / ?u)"
  have u: "0 \<le> ?u" by simp
  have "of_int (2 ^ 52 :: int) \<le> (of_int ?r :: real)"
    using mantissa_bounds(1)[OF assms] by (simp only: of_int_le_iff)
  then have "2 ^ 52 \<le> (of_int ?r :: real)" by simp
  then have "2 ^ 52 * ?u \<le> of_int ?r * ?u" using u by (rule mult_right_mono)
  then have "?u * 2 ^ 52 \<le> of_int ?r * ?u" by (simp only: mult.commute)
  then show "2 powr ?e \<le> fl64 x"
    unfolding fl64_pos_form[OF assms] ulp_scaling(1) .
  have "(of_int ?r :: real) \<le> of_int (2 ^ 53 :: int)"
    using mantissa_bounds(2)[OF assms] by (simp only: of_int_le_iff)
  then have "(of_int ?r :: real) \<le> 2 ^ 53" by simp
  then have "of_int ?r * ?u \<le> 2 ^ 53 * ?u" using u by (rule mult_right_mono)
  then have "of_int ?r * ?u \<le> ?u * 2 ^ 53" by (simp only: mult.commute)
  then show "fl64 x \<le> 2 powr (?e + 1)"
    unfolding fl64_pos_form[OF assms] ulp_scaling(2) .
qed

lemma fl64_pos: "0 < x \<Longrightarrow> 0 < fl64 x"
proof -
  assume x: "0 < x"
  have "(0::real) < 2 powr of_int \<lfloor>log 2 x\<rfloor>" by simp
  then show ?thesis using fl64_bracket(1)[OF x] by linarith
qed

lemma fl64_ge_one: "1 \<le> x \<Longrightarrow> 1 \<le> fl64 x"
proof -
  assume x: "1 \<le> x"
  then have "0 \<le> log 2 x" by simp
  then have "0 \<le> \<lfloor>log 2 x\<rfloor>" by simp
  then have "(0::real) \<le> of_int \<lfloor>log 2 x\<rfloor>" by simp
  then have "(1::real) \<le> 2 powr of_int \<lfloor>log 2 x\<rfloor>" by (intro ge_one_powr_ge_zero) simp_all
  then show ?thesis using fl64_bracket(1)[of x] x by linarith
qed

lemma fl64_lt_one: "0 < x \<Longrightarrow> x < 1 \<Longrightarrow> fl64 x \<le> 1"
proof -
  assume p: "0 < x" and l: "x < 1"
  have "log 2 x < 0" using p l by simp
  then have "\<lfloor>log 2 x\<rfloor> + 1 \<le> 0" by linarith
  then have "of_int \<lfloor>log 2 x\<rfloor> + 1 \<le> (0::real)" by linarith
  then have "(2::real) powr (of_int \<lfloor>log 2 x\<rfloor> + 1) \<le> 2 powr 0"
    by (intro powr_mono) simp_all
  then have "(2::real) powr (of_int \<lfloor>log 2 x\<rfloor> + 1) \<le> 1" by simp
  then show ?thesis using fl64_bracket(2)[OF p] by linarith
qed

lemma fl64_one_plus:
  assumes "0 \<le> a" and "a * 2 ^ 52 < 1 / 2"
  shows "fl64 (1 + a) = 1"
proof -
  have x: "0 < 1 + a" and x1: "1 \<le> 1 + a" using assms(1) by simp_all
  have "a * 2 ^ 52 < 1 * 2 ^ 52" using assms(2) by simp
  then have "a < 1" by (simp only: mult_less_cancel_right_pos zero_less_power zero_less_numeral)
  then have x2: "1 + a < 2" by simp
  have "0 \<le> log 2 (1 + a)" using x1 by simp
  moreover have "log 2 (1 + a) < 1" using x x2 by simp
  ultimately have fl: "\<lfloor>log 2 (1 + a)\<rfloor> = 0" by (intro floor_unique) simp_all
  have u: "2 powr (0 - 52) * 2 ^ 52 = (1::real)" using ulp_scaling(1)[of 0] by simp
  have upos: "(0::real) < 2 powr (0 - 52)" by simp
  have "(1 + a) / 2 powr (0 - 52) = (1 + a) * (2 powr (0 - 52) * 2 ^ 52) / 2 powr (0 - 52)"
    by (simp only: u mult_1_right)
  also have "\<dots> = (1 + a) * 2 ^ 52" using upos by simp
  also have "\<dots> = of_int (2 ^ 52) + a * 2 ^ 52" by (simp add: algebra_simps)
  finally have m: "(1 + a) / 2 powr (0 - 52) = of_int (2 ^ 52) + a * 2 ^ 52" .
  have "0 \<le> a * 2 ^ 52" using assms(1) by simp
  then have r: "round_half_even ((1 + a) / 2 powr (0 - 52)) = 2 ^ 52"
    unfolding m using assms(2) by (rule round_half_even_near)
  have "fl64 (1 + a) = of_int (2 ^ 52) * 2 powr (0 - 52)"
    unfolding fl64_pos_form[OF x] fl of_int_0 r ..
  also have "\<dots> = 2 powr (0 - 52) * 2 ^ 52" by simp
  finally show ?thesis by (simp only: u)
qed

lemma fl64_one: "fl64 1 = 1"
  using fl64_one_plus[of 0] by simp

lemma fl64_le_one: "0 < x \<Longrightarrow> x \<le> 1 \<Longrightarrow> fl64 x \<le> 1"
  using fl64_lt_one[of x] fl64_one by (cases "x = 1") simp_all

lemma ln2_bounds: "1 / 2 \<le> ln (2::real)" "ln (2::real) \<le> 1"
proof -
  have "(1::real) + 1 \<le> exp 1" by (rule exp_ge_add_one_self)
  then have "(2::real) \<le> exp 1" by simp
  then show "ln (2::real) \<le> 1" using ln_le_cancel_iff[of "2::real" "exp 1"] by simp
  have "(exp (1 / 2))\<^sup>2 = exp (1::real)" using exp_double[of "1 / 2 :: real"] by simp
  also have "\<dots> \<le> 2\<^sup>2" using exp_le by simp
  finally have "exp (1 / 2) \<le> (2::real)" by (rule power2_le_imp_le) simp
  then show "1 / 2 \<le> ln (2::real)"
    using ln_le_cancel_iff[of "exp (1 / 2)" "2::real"] by simp
qed

lemma log2_exp: "log 2 (exp y) = y / ln 2"
  by (simp add: log_def)

lemma log2_exp_bounds:
  assumes "- 500 \<le> y" and "y \<le> 500"
  shows "- 1000 \<le> log 2 (exp y)" and "log 2 (exp y) \<le> 1000"
proof -
  have l: "0 < ln (2::real)" by simp
  have "- 1000 * ln (2::real) \<le> - 500" using ln2_bounds(1) by linarith
  then have "- 1000 * ln 2 \<le> y" using assms(1) by linarith
  then show "- 1000 \<le> log 2 (exp y)" unfolding log2_exp using l by (simp only: pos_le_divide_eq)
  have "500 \<le> 1000 * ln (2::real)" using ln2_bounds(1) by linarith
  then have "y \<le> 1000 * ln 2" using assms(2) by linarith
  then show "log 2 (exp y) \<le> 1000" unfolding log2_exp using l by (simp only: pos_divide_le_eq)
qed

lemma log2_exp_minus_500: "log 2 (exp (- 500)) \<le> - 500"
proof -
  have l: "0 < ln (2::real)" by simp
  have "- 500 \<le> - 500 * ln (2::real)" using ln2_bounds(2) by linarith
  then show ?thesis unfolding log2_exp using l by (simp only: pos_divide_le_eq)
qed

lemma clip_bounds: "- 500 \<le> clip z (- 500) 500" "clip z (- 500) 500 \<le> 500"
  by (simp_all add: clip_def)

lemma sigmoid_pos: "0 < sigmoid z"
  unfolding sigmoid_def by (simp add: add_pos_pos)

lemma sigmoid_lt_one: "sigmoid z < 1"
proof -
  have "0 < exp (- clip z (- 500) 500)" by simp
  then have d: "1 < 1 + exp (- clip z (- 500) 500)" by linarith
  have "1 / d < 1" if "1 < d" for d :: real
    using that by (auto simp: divide_less_eq)
  then show ?thesis unfolding sigmoid_def using d by blast
qed

lemma exp64_range:
  "2 powr (- 1022) \<le> fl64 (exp (- clip z (- 500) 500))"
  "fl64 (exp (- clip z (- 500) 500)) \<le> 2 powr 1023"
proof -
  let ?y = "- clip z (- 500) 500"
  let ?e = "\<lfloor>log 2 (exp ?y)\<rfloor>"
  have y: "- 500 \<le> ?y" "?y \<le> 500" using clip_bounds[of z] by simp_all
  have x: "0 < exp ?y" by simp
  note lb = log2_exp_bounds[OF y]
  have "- 1000 \<le> ?e" using lb(1) by (simp add: le_floor_iff)
  then have "- 1022 \<le> (of_int ?e :: real)" by linarith
  then have "(2::real) powr (- 1022) \<le> 2 powr of_int ?e" by (intro powr_mono) simp_all
  then show "2 powr (- 1022) \<le> fl64 (exp ?y)" using fl64_bracket(1)[OF x] by linarith
  have "of_int ?e \<le> log 2 (exp ?y)" by (rule of_int_floor_le)
  then have "(of_int ?e :: real) + 1 \<le> 1023" using lb(2) by linarith
  then have "(2::real) powr (of_int ?e + 1) \<le> 2 powr 1023" by (intro powr_mono) simp_all
  then show "fl64 (exp ?y) \<le> 2 powr 1023" using fl64_bracket(2)[OF x] by linarith
qed

lemma sigmoid64_bounds: "0 < sigmoid64 z" "sigmoid64 z \<le> 1"
proof -
  let ?a = "fl64 (exp (- clip z (- 500) 500))"
  let ?d = "fl64 (1 + ?a)"
  have a: "0 < ?a" by (rule fl64_pos) simp
  then have "1 \<le> 1 + ?a" by simp
  then have d: "1 \<le> ?d" by (rule fl64_ge_one)
  then have q: "0 < 1 / ?d" "1 / ?d \<le> 1" by simp_all
  show "0 < sigmoid64 z" unfolding sigmoid64_def using q(1) by (rule fl64_pos)
  show "sigmoid64 z \<le> 1" unfolding sigmoid64_def using q by (rule fl64_le_one)
qed

lemma fl64_exp_minus_500: "fl64 (exp (- 500)) * 2 ^ 52 < 1 / 2" "0 \<le> fl64 (exp (- 500))"
proof -
  let ?x = "exp (- 500) :: real"
  let ?e = "\<lfloor>log 2 ?x\<rfloor>"
  have x: "0 < ?x" by simp
  have "of_int ?e \<le> log 2 ?x" by (rule of_int_floor_le)
  then have "(of_int ?e :: real) + 1 \<le> - 499" using log2_exp_minus_500 by linarith
  then have "(2::real) powr (of_int ?e + 1) \<le> 2 powr (- 499)" by (intro powr_mono) simp_all
  then have a: "fl64 ?x \<le> 2 powr (- 499)" using fl64_bracket(2)[OF x] by linarith
  have "fl64 ?x * 2 ^ 52 \<le> 2 powr (- 499) * 2 ^ 52"
    using a by (rule mult_right_mono) simp
  also have "2 powr (- 499) * 2 ^ 52 = (2::real) powr (- 499) * 2 powr 52" by simp
  also have "\<dots> = 2 powr (- 447)" by (simp only: powr_add[symmetric]) simp
  also have "\<dots> < 2 powr (- 1)" by (intro powr_less_mono) simp_all
  also have "\<dots> = 1 / 2" by (simp add: powr_minus_divide)
  finally show "fl64 ?x * 2 ^ 52 < 1 / 2" .
  show "0 \<le> fl64 ?x" using fl64_pos[OF x] by simp
qed

lemma sigmoid64_saturates: "500 \<le> z \<Longrightarrow> sigmoid64 z = 1"
proof -
  assume "500 \<le> z"
  then have c: "clip z (- 500) 500 = 500" by (simp add: clip_def)
  have "fl64 (1 + fl64 (exp (- 500))) = 1"
    using fl64_exp_minus_500(2) fl64_exp_minus_500(1) by (rule fl64_one_plus)
  then show ?thesis unfolding sigmoid64_def c by (simp add: fl64_one)
qed

lemma fl64_within_factor_two:
  assumes "0 < x"
  shows "x / 2 \<le> fl64 x" and "fl64 x \<le> 2 * x"
proof -
  let ?P = "2 powr of_int \<lfloor>log 2 x\<rfloor> :: real"
  have s: "2 powr (of_int \<lfloor>log 2 x\<rfloor> + 1) = 2 * ?P"
    by (simp only: powr_add) simp
  have a: "?P \<le> x" and b: "x < 2 * ?P"
    using floor_log_bracket[OF assms] unfolding s by simp_all
  have c: "?P \<le> fl64 x" and d: "fl64 x \<le> 2 * ?P"
    using fl64_bracket[OF assms] unfolding s by simp_all
  show "x / 2 \<le> fl64 x" using b c by linarith
  show "fl64 x \<le> 2 * x" using a d by linarith
qed

lemma exp64_upper: "fl64 (exp (- clip z (- 500) 500)) \<le> 2 powr 1001"
proof -
  let ?y = "- clip z (- 500) 500"
  let ?e = "\<lfloor>log 2 (exp ?y)\<rfloor>"
  have y: "- 500 \<le> ?y" "?y \<le> 500" using clip_bounds[of z] by simp_all
  have x: "0 < exp ?y" by simp
  have "of_int ?e \<le> log 2 (exp ?y)" by (rule of_int_floor_le)
  then have "(of_int ?e :: real) + 1 \<le> 1001" using log2_exp_bounds(2)[OF y] by linarith
  then have "(2::real) powr (of_int ?e + 1) \<le> 2 powr 1001" by (intro powr_mono) simp_all
  then show ?thesis using fl64_bracket(2)[OF x] by linarith
qed

lemma sigmoid64_range:
  "1 \<le> fl64 (1 + fl64 (exp (- clip z (- 500) 500)))"
  "fl64 (1 + fl64 (exp (- clip z (- 500) 500))) \<le> 2 powr 1023"
  "2 powr (- 1022) \<le> sigmoid64 z"
proof -
  let ?a = "fl64 (exp (- clip z (- 500) 500))"
  let ?d = "fl64 (1 + ?a)"
  have a: "0 < ?a" by (rule fl64_pos) simp
  have s: "0 < 1 + ?a" "1 \<le> 1 + ?a" using a by simp_all
  show d1: "1 \<le> ?d" using s(2) by (rule fl64_ge_one)
  have one: "(1::real) \<le> 2 powr 1001" by (intro ge_one_powr_ge_zero) simp_all
  have p: "(2::real) * (2 * (2 * 2 powr 1001)) = 2 powr 1004"
  proof -
    have "(2::real) powr 1004 = 2 powr (1001 + 1 + 1 + 1)" by simp
    also have "\<dots> = 2 powr 1001 * 2 * 2 * 2" by (simp only: powr_add powr_one')
    finally show ?thesis by simp
  qed
  have "?d \<le> 2 * (1 + ?a)" using fl64_within_factor_two(2)[OF s(1)] .
  also have "\<dots> \<le> 2 * (2 * 2 powr 1001)"
  proof -
    have "2 * (1 + u) \<le> 2 * (2 * P)" if "u \<le> P" and "1 \<le> P" for u :: real and P :: real
      using that by simp
    then show ?thesis using exp64_upper[of z] one by blast
  qed
  finally have du: "?d \<le> 2 * (2 * 2 powr 1001)" .
  have "2 * (2 * 2 powr 1001) \<le> (2::real) * (2 * (2 * 2 powr 1001))" by simp
  also have "\<dots> = 2 powr 1004" by (rule p)
  also have "\<dots> \<le> 2 powr 1023" by (intro powr_mono) simp_all
  finally show "?d \<le> 2 powr 1023" using du by linarith
  have dpos: "0 < ?d" using d1 by linarith
  have q: "0 < 1 / ?d" using dpos by simp
  have h1: "1 / (2 * (2 * 2 powr 1001)) \<le> 1 / ?d"
    using du dpos by (intro divide_left_mono) simp_all
  have "(2::real) powr (- 1022) \<le> 2 powr (- 1004)" by (intro powr_mono) simp_all
  also have "\<dots> = 1 / (2::real) powr 1004" by (simp only: powr_minus_divide)
  also have "\<dots> = 1 / (2 * (2 * 2 powr 1001)) / 2" unfolding p[symmetric] by simp
  also have "\<dots> \<le> 1 / ?d / 2" using h1 by (rule divide_right_mono) simp
  also have "\<dots> \<le> fl64 (1 / ?d)" using fl64_within_factor_two(1)[OF q] .
  finally show "2 powr (- 1022) \<le> sigmoid64 z" unfolding sigmoid64_def .
qed

text \<open>
  Claim C7, as the code has it.  Over the reals the sigmoid lies strictly between 0 and
  1, and an input beyond the clamp gives what the clamp bound gives.  The clamp keeps the
  argument of the exponential within \<open>[-500, 500]\<close>, so in binary64 the
  exponential, the sum and the quotient all stay within the range of the normal numbers:
  nothing overflows or underflows, and no infinity or NaN arises.  In binary64 the
  sigmoid is strictly positive and at most 1.
\<close>

theorem sigmoid_bounds:
  "0 < sigmoid z \<and> sigmoid z < 1
   \<and> - 500 \<le> clip z (- 500) 500 \<and> clip z (- 500) 500 \<le> 500
   \<and> 2 powr (- 1022) \<le> fl64 (exp (- clip z (- 500) 500))
   \<and> fl64 (exp (- clip z (- 500) 500)) \<le> 2 powr 1023
   \<and> 1 \<le> fl64 (1 + fl64 (exp (- clip z (- 500) 500)))
   \<and> fl64 (1 + fl64 (exp (- clip z (- 500) 500))) \<le> 2 powr 1023
   \<and> 2 powr (- 1022) \<le> sigmoid64 z
   \<and> 0 < sigmoid64 z \<and> sigmoid64 z \<le> 1
   \<and> sigmoid 10000 = sigmoid 500 \<and> sigmoid64 10000 = sigmoid64 500"
proof -
  have "sigmoid 10000 = sigmoid 500" by (simp add: sigmoid_def clip_def)
  moreover have "sigmoid64 10000 = sigmoid64 500" by (simp add: sigmoid64_def clip_def)
  ultimately show ?thesis
    using sigmoid_pos[of z] sigmoid_lt_one[of z] clip_bounds[of z] exp64_range[of z]
      sigmoid64_range[of z] sigmoid64_bounds[of z]
    by blast
qed

theorem sigmoid_bounds_witness:
  "0 < sigmoid 10000 \<and> sigmoid 10000 < 1 \<and> clip 10000 (- 500) 500 = 500
   \<and> 0 < sigmoid64 10000 \<and> sigmoid64 10000 \<le> 1"
  using sigmoid_bounds[of 10000] by (simp add: clip_def)

text \<open>
  The claim as it is written keeps the sigmoid strictly below 1.  In binary64
  \<open>1 + exp (-500)\<close> rounds to 1, so the sigmoid of 10000 is exactly 1.
\<close>

theorem sigmoid64_one_counterexample:
  "sigmoid64 10000 = 1 \<and> \<not> sigmoid64 10000 < 1"
  using sigmoid64_saturates[of 10000] by simp

subsection \<open>The endpoint's threshold\<close>

lemma sigmoid_le_half: "z \<le> 0 \<Longrightarrow> sigmoid z \<le> 1 / 2"
proof -
  assume "z \<le> 0"
  then have "clip z (- 500) 500 \<le> 0" by (simp add: clip_def)
  then have "1 \<le> exp (- clip z (- 500) 500)" by simp
  then have "2 \<le> 1 + exp (- clip z (- 500) 500)" by simp
  then have "1 / (1 + exp (- clip z (- 500) 500)) \<le> 1 / 2"
    by (rule le_imp_inverse_le[of 2, simplified inverse_eq_divide]) simp
  then show ?thesis by (simp only: sigmoid_def)
qed

lemma spec_probability_pos: "0 < spec_probability X w i"
  unfolding spec_probability_def by (simp add: add_pos_pos)

lemma pulled_down_zero: "length x = 7 \<Longrightarrow> pulled_down x (replicate 8 0)"
proof -
  assume l: "length x = 7"
  have "replicate 8 (0::real) = (- 0) # map (\<lambda>v. - (0 * v)) x"
    using l by (intro nth_equalityI) (auto simp: nth_Cons')
  then show ?thesis unfolding pulled_down_def by (intro exI[of _ 0]) simp
qed

lemma pulled_down_update:
  assumes l: "length x = 7" and p: "pulled_down x w"
  shows "pulled_down x (spec_update (5 / 100) [x] [0] (1 / 100) w)"
proof -
  from p obtain a b where a: "0 \<le> a" and b: "0 \<le> b"
    and w: "w = (- a) # map (\<lambda>v. - (b * v)) x" unfolding pulled_down_def by blast
  let ?p = "spec_probability [x] w 0"
  let ?a = "a + 5 / 100 * ?p" and ?b = "b * (1 - 5 / 100 * (1 / 100)) + 5 / 100 * ?p"
  have pp: "0 < ?p" by (rule spec_probability_pos)
  have a': "0 \<le> ?a" using a pp by simp
  have "0 \<le> b * (1 - 5 / 100 * (1 / 100))" using b by (intro mult_nonneg_nonneg) simp_all
  then have b': "0 \<le> ?b" using pp by simp
  have "spec_update (5 / 100) [x] [0] (1 / 100) w = (- ?a) # map (\<lambda>v. - (?b * v)) x"
  proof (rule nth_equalityI)
    show "length (spec_update (5 / 100) [x] [0] (1 / 100) w)
        = length ((- ?a) # map (\<lambda>v. - (?b * v)) x)"
      using l by (simp add: spec_update_length)
    fix j assume "j < length (spec_update (5 / 100) [x] [0] (1 / 100) w)"
    then have j: "j < 8" by (simp add: spec_update_length)
    show "spec_update (5 / 100) [x] [0] (1 / 100) w ! j = ((- ?a) # map (\<lambda>v. - (?b * v)) x) ! j"
    proof (cases j)
      case 0
      then show ?thesis
        unfolding spec_update_def by (simp add: spec_gradient_one_row w del: upt_Suc)
    next
      case (Suc i)
      then have i: "i < length x" using j l by simp
      have "spec_update (5 / 100) [x] [0] (1 / 100) w ! j
          = w ! j - 5 / 100 * spec_gradient [x] [0] (1 / 100) w j"
        unfolding spec_update_def using j by (simp del: upt_Suc)
      also have "\<dots> = - (b * x ! i) - 5 / 100 * (x ! i * ?p + 1 / 100 * (- (b * x ! i)))"
        using Suc i by (simp add: spec_gradient_one_row) (simp add: w)
      also have "\<dots> = - (?b * x ! i)" by (simp add: algebra_simps)
      finally show ?thesis using Suc i by simp
    qed
  qed
  then show ?thesis unfolding pulled_down_def using a' b' by blast
qed

lemma pulled_down_length: "length x = 7 \<Longrightarrow> pulled_down x w \<Longrightarrow> length w = 8"
  unfolding pulled_down_def by auto

lemma pulled_down_train_loop:
  assumes l: "length x = 7"
  shows "pulled_down x w \<Longrightarrow> pulled_down x (train_loop k (add_bias [x]) [0] (5 / 100) (1 / 100) w)"
proof (induction k arbitrary: w)
  case 0
  then show ?case by simp
next
  case (Suc k)
  have rows: "\<forall>r \<in> set [x]. length r = 7" using l by simp
  have w: "length w = 8" using l Suc.prems by (rule pulled_down_length)
  have step: "train_loop (Suc k) (add_bias [x]) [0] (5 / 100) (1 / 100) w
      = (if spec_converged [x] [0] (1 / 100) w then spec_update (5 / 100) [x] [0] (1 / 100) w
         else train_loop k (add_bias [x]) [0] (5 / 100) (1 / 100)
                (spec_update (5 / 100) [x] [0] (1 / 100) w))"
    using rows w by (intro train_loop_Suc_spec) simp_all
  have u: "pulled_down x (spec_update (5 / 100) [x] [0] (1 / 100) w)"
    using l Suc.prems by (rule pulled_down_update)
  show ?case unfolding step using u Suc.IH[OF u] by simp
qed

lemma pulled_down_train:
  assumes l: "length x = 7"
  shows "pulled_down x (logistic_regression_train [x] [0] (5 / 100) 3000 (1 / 100))"
proof -
  have sh: "shape1 (add_bias [x]) = 8" using l by (simp add: shape1_def add_bias_def)
  show ?thesis
    unfolding logistic_regression_train_def Let_def sh
    using l pulled_down_zero[OF l] by (rule pulled_down_train_loop)
qed

lemma features_epoch:
  "features 0 = [0, 1, 0, 1, sin (2 * pi * 3 / 7), cos (2 * pi * 3 / 7), 0]"
  by (simp add: features_def hour_def minute_def dayofweek_def is_weekend_def)

lemma features_epoch_plus_five:
  "features 300000000000
     = [0, 1, sin (2 * pi * 5 / 60), cos (2 * pi * 5 / 60),
        sin (2 * pi * 3 / 7), cos (2 * pi * 3 / 7), 0]"
  by (simp add: features_def hour_def minute_def dayofweek_def is_weekend_def)

lemma dot_pulled_down:
  "dot (1 # [0, 1, p, m, s, c, 0]) ((- a) # map (\<lambda>v. - (b * v)) [0, 1, 0, 1, s, c, 0])
     = - a - b * (1 + m + s * s + c * c)"
  by (simp add: dot_def algebra_simps)

lemma first_point_score:
  assumes "pulled_down (features 0) w"
  shows "dot (1 # features 300000000000) w \<le> 0"
proof -
  from assms obtain a b where a: "0 \<le> a" and b: "0 \<le> b"
    and w: "w = (- a) # map (\<lambda>v. - (b * v)) (features 0)" unfolding pulled_down_def by blast
  let ?s = "sin (2 * pi * 3 / 7)" and ?c = "cos (2 * pi * 3 / 7)"
  let ?m = "cos (2 * pi * 5 / 60)"
  have d: "dot (1 # features 300000000000) w = - a - b * (1 + ?m + ?s * ?s + ?c * ?c)"
    unfolding w features_epoch features_epoch_plus_five by (rule dot_pulled_down)
  have "0 \<le> ?m" by (rule cos_ge_zero) (use pi_gt_zero in simp_all)
  moreover have "0 \<le> ?s * ?s" and "0 \<le> ?c * ?c" by simp_all
  ultimately have "0 \<le> 1 + ?m + ?s * ?s + ?c * ?c" by linarith
  then have "0 \<le> b * (1 + ?m + ?s * ?s + ?c * ?c)" using b by (rule mult_nonneg_nonneg[rotated])
  then show ?thesis unfolding d using a by linarith
qed

text \<open>
  Claim C3 asks the endpoint's \<open>threshold\<close> to be the value the probabilities
  are compared with.  Take the history of one row, 1970-01-01 00:00:00 with label 0, and
  the threshold 0.  The endpoint answers as it does for the threshold 0.6, with 144
  points; the first point has value 0, although its probability is at least the
  threshold 0 that the caller gave, for which the claim requires the value 1.
\<close>

theorem threshold_zero_not_applied:
  "\<exists>preds. compute_forecast [(Ts 0, Lab 0)] 0 = Inr preds
     \<and> compute_forecast [(Ts 0, Lab 0)] (6 / 10) = Inr preds
     \<and> length preds = 144
     \<and> snd (preds ! 0) = 0
     \<and> 0 \<le> sigmoid (dot (1 # features (fst (preds ! 0)))
                  (logistic_regression_train [features 0] [0] (5 / 100) 3000 (1 / 100)))"
proof -
  let ?w = "logistic_regression_train [features 0] [0] (5 / 100) 3000 (1 / 100)"
  have l: "load_txt_to_dataframe [(Ts 0, Lab 0)] = Inr [(0, 0)]"
    by (simp add: eval_load)
  from forecast_points[OF l] obtain preds where
    f: "forecast_12h_from_txt [(Ts 0, Lab 0)] = Inr preds" and len: "length preds = 144"
    and pt: "\<forall>k < 144.
          fst (preds ! k) = fst (last [(0 :: int, 0 :: int)]) + five_min + int k * five_min
        \<and> snd (preds ! k) =
            (if sigmoid (dot (1 # features (fst (preds ! k)))
                    (logistic_regression_train (map (\<lambda>r. features (fst r)) [(0 :: int, 0 :: int)])
                       (map snd [(0 :: int, 0 :: int)]) (5 / 100) 3000 (1 / 100))) \<ge> 6 / 10
             then 1 else 0)"
    by blast
  have t0: "fst (preds ! 0) = 300000000000" using pt by (simp add: five_min_def)
  have v0: "snd (preds ! 0) = (if sigmoid (dot (1 # features 300000000000) ?w) \<ge> 6 / 10 then 1 else 0)"
    using pt t0 by simp
  have "length (features 0) = 7" by (simp add: features_def)
  then have "pulled_down (features 0) ?w" by (rule pulled_down_train)
  then have "dot (1 # features 300000000000) ?w \<le> 0" by (rule first_point_score)
  then have "sigmoid (dot (1 # features 300000000000) ?w) \<le> 1 / 2" by (rule sigmoid_le_half)
  then have zero: "snd (preds ! 0) = 0" unfolding v0 by simp
  have "0 \<le> sigmoid (dot (1 # features (fst (preds ! 0))) ?w)"
    using sigmoid_pos[of "dot (1 # features (fst (preds ! 0))) ?w"] by simp
  then show ?thesis using f len zero by (auto simp: compute_forecast_def)
qed

end
